theory Spec2Isabelle
  imports Complex_Main "HOL-Library.Word" "HOL-Library.AList"
begin

section \<open>Python values used by the Criteo data loader\<close>

text \<open>
  The development embeds \<^verbatim>\<open>src/data/criteo/CriteoDataLoader.py\<close>: the numeric
  discretizer \<^verbatim>\<open>convert_numeric_feature\<close>, the counting pass
  \<^verbatim>\<open>__get_feat_mapper\<close>, the encoding pass \<^verbatim>\<open>__yield_buffer\<close>, the
  cache writer \<^verbatim>\<open>__build_cache\<close> and the reading side of the class
  (\<^verbatim>\<open>__init__\<close>, \<^verbatim>\<open>__len__\<close>, \<^verbatim>\<open>__getitem__\<close>).

  Every exception the code can raise is a value of \<open>error\<close>; a function that can raise
  returns \<open>error + 'a\<close> with \<open>Inl\<close> for the exception.
\<close>

datatype error = ValueError | OverflowError | KeyError | IndexError | TypeError
  | StructError | FileNotFoundError | ZeroDivisionError

subsection \<open>Strings\<close>

text \<open>
  Strings are lists of 8-bit characters. \<open>is_space\<close> is the set of characters below 128
  that \<^verbatim>\<open>str.strip()\<close>, \<^verbatim>\<open>int()\<close> and \<^verbatim>\<open>float()\<close> treat as white space.
\<close>

definition is_space :: "char \<Rightarrow> bool" where
  "is_space c = ((of_char c :: nat) \<in> {9, 10, 11, 12, 13, 28, 29, 30, 31, 32})"

definition strip :: "string \<Rightarrow> string" where
  "strip s = rev (dropWhile is_space (rev (dropWhile is_space s)))"

definition is_digit :: "char \<Rightarrow> bool" where
  "is_digit c = (48 \<le> (of_char c :: nat) \<and> (of_char c :: nat) \<le> 57)"

definition digit_val :: "char \<Rightarrow> nat" where
  "digit_val c = of_char c - 48"

definition digit_char :: "nat \<Rightarrow> char" where
  "digit_char n = ''0123456789'' ! n"

text \<open>
  The production \<^verbatim>\<open>digitpart ::= digit (["_"] digit)*\<close> of Python's numeric
  literals: the digits read, or \<open>None\<close> when the string is not a digit part.
\<close>

fun digitpart :: "string \<Rightarrow> nat list option" where
  "digitpart [] = None"
| "digitpart [c] = (if is_digit c then Some [digit_val c] else None)"
| "digitpart (c # d # cs) =
     (if \<not> is_digit c then None
      else case (if d = CHR ''_'' then digitpart cs else digitpart (d # cs)) of
             None \<Rightarrow> None
           | Some ds \<Rightarrow> Some (digit_val c # ds))"

definition nat_of_digits :: "nat list \<Rightarrow> nat" where
  "nat_of_digits ds = foldl (\<lambda>a d. 10 * a + d) 0 ds"

text \<open>An optional sign followed by a digit part.\<close>

definition signed_digits :: "string \<Rightarrow> int option" where
  "signed_digits s =
     (case s of
        [] \<Rightarrow> None
      | c # cs \<Rightarrow>
          if c = CHR ''-'' then map_option (\<lambda>ds. - int (nat_of_digits ds)) (digitpart cs)
          else if c = CHR ''+'' then map_option (\<lambda>ds. int (nat_of_digits ds)) (digitpart cs)
          else map_option (\<lambda>ds. int (nat_of_digits ds)) (digitpart s))"

text \<open>\<^verbatim>\<open>int(s)\<close> on a string, base 10: \<^verbatim>\<open>ValueError\<close> when it is not an integer literal.\<close>

definition py_int :: "string \<Rightarrow> error + int" where
  "py_int s = (case signed_digits (strip s) of None \<Rightarrow> Inl ValueError | Some n \<Rightarrow> Inr n)"

text \<open>\<^verbatim>\<open>str(n)\<close> on an integer.\<close>

fun str_nat :: "nat \<Rightarrow> string" where
  "str_nat n =
     (if n < 10 then [digit_char n] else str_nat (n div 10) @ [digit_char (n mod 10)])"

definition str_int :: "int \<Rightarrow> string" where
  "str_int i = (if i < 0 then CHR ''-'' # str_nat (nat (- i)) else str_nat (nat i))"

text \<open>\<^verbatim>\<open>line.rstrip('\n')\<close> removes every trailing line feed.\<close>

definition rstrip_nl :: "string \<Rightarrow> string" where
  "rstrip_nl s = rev (dropWhile (\<lambda>c. c = CHR 0x0A) (rev s))"

text \<open>\<^verbatim>\<open>s.split(',')\<close>: the empty string gives one empty field.\<close>

fun split_comma :: "string \<Rightarrow> string list" where
  "split_comma [] = [[]]"
| "split_comma (c # cs) =
     (if c = CHR '','' then [] # split_comma cs
      else case split_comma cs of
             [] \<Rightarrow> [[c]]
           | f # fs \<Rightarrow> (c # f) # fs)"

subsection \<open>Text files\<close>

text \<open>
  A file system maps a path to the content of the text file there. \<^verbatim>\<open>open(path)\<close>
  reads in text mode with universal newlines: \<^verbatim>\<open>\r\n\<close> and a lone \<^verbatim>\<open>\r\<close> become
  \<^verbatim>\<open>\n\<close>, and iterating over the file gives the lines, each with its line feed.
\<close>

type_synonym files = "string \<Rightarrow> string option"

fun universal_newlines :: "string \<Rightarrow> string" where
  "universal_newlines [] = []"
| "universal_newlines [c] = (if c = CHR 0x0D then [CHR 0x0A] else [c])"
| "universal_newlines (c # d # cs) =
     (if c = CHR 0x0D then
        (if d = CHR 0x0A then CHR 0x0A # universal_newlines cs
         else CHR 0x0A # universal_newlines (d # cs))
      else c # universal_newlines (d # cs))"

fun file_lines :: "string \<Rightarrow> string list" where
  "file_lines [] = []"
| "file_lines (c # cs) =
     (if c = CHR 0x0A then [c] # file_lines cs
      else case file_lines cs of
             [] \<Rightarrow> [[c]]
           | l # ls \<Rightarrow> (c # l) # ls)"

definition read_lines :: "files \<Rightarrow> string \<Rightarrow> error + string list" where
  "read_lines fs path =
     (case fs path of
        None \<Rightarrow> Inl FileNotFoundError
      | Some content \<Rightarrow> Inr (file_lines (universal_newlines content)))"

subsection \<open>Floating-point literals\<close>

text \<open>
  \<^verbatim>\<open>float(s)\<close> accepts, after stripping white space, an optional sign followed by
  \<^verbatim>\<open>inf\<close>, \<^verbatim>\<open>infinity\<close> or \<^verbatim>\<open>nan\<close> in any case, or by a decimal number
  \<^verbatim>\<open>[digitpart] "." digitpart | digitpart ["."]\<close> with an optional exponent.
  \<open>parse_float\<close> is that grammar: it returns the literal read (sign, integer digits,
  fraction digits, exponent), or \<open>None\<close> where \<^verbatim>\<open>float\<close> raises \<^verbatim>\<open>ValueError\<close>.
\<close>

datatype float_lit = LitNum bool "nat list" "nat list" int | LitInf bool | LitNan bool

definition ci_match :: "string \<Rightarrow> string \<Rightarrow> bool" where
  "ci_match p s = list_all2 (\<lambda>a b. b = a \<or> (of_char b :: nat) + 32 = of_char a) p s"

definition parse_number :: "bool \<Rightarrow> string \<Rightarrow> float_lit option" where
  "parse_number neg s =
     (let m = takeWhile (\<lambda>c. c \<noteq> CHR ''e'' \<and> c \<noteq> CHR ''E'') s;
          r = dropWhile (\<lambda>c. c \<noteq> CHR ''e'' \<and> c \<noteq> CHR ''E'') s;
          ip = takeWhile (\<lambda>c. c \<noteq> CHR ''.'') m;
          fr = dropWhile (\<lambda>c. c \<noteq> CHR ''.'') m;
          ex = (case r of [] \<Rightarrow> Some 0 | _ # es \<Rightarrow> signed_digits es);
          mant =
            (case fr of
               [] \<Rightarrow> map_option (\<lambda>ds. (ds, [])) (digitpart ip)
             | _ # fp \<Rightarrow>
                 if ip = [] then map_option (\<lambda>ds. ([], ds)) (digitpart fp)
                 else if fp = [] then map_option (\<lambda>ds. (ds, [])) (digitpart ip)
                 else (case digitpart ip of
                         None \<Rightarrow> None
                       | Some a \<Rightarrow> map_option (\<lambda>b. (a, b)) (digitpart fp)))
      in case mant of
           None \<Rightarrow> None
         | Some (a, b) \<Rightarrow> map_option (\<lambda>e. LitNum neg a b e) ex)"

definition parse_signed :: "bool \<Rightarrow> string \<Rightarrow> float_lit option" where
  "parse_signed neg r =
     (if ci_match ''inf'' r \<or> ci_match ''infinity'' r then Some (LitInf neg)
      else if ci_match ''nan'' r then Some (LitNan neg)
      else parse_number neg r)"

definition parse_float :: "string \<Rightarrow> float_lit option" where
  "parse_float s =
     (case strip s of
        [] \<Rightarrow> None
      | c # cs \<Rightarrow>
          if c = CHR ''-'' then parse_signed True cs
          else if c = CHR ''+'' then parse_signed False cs
          else parse_signed False (c # cs))"

subsection \<open>The library operations the code relies on\<close>

text \<open>
  What Python's floating-point arithmetic does with a literal depends on IEEE rounding and
  on the C library's logarithm, and the order in which a \<^verbatim>\<open>set\<close> of strings is
  iterated depends on the process's hash seed. The program is therefore embedded over a
  record of these operations, for any type \<open>'f\<close> of floating-point values:
  \<^item> \<open>float_value\<close>: the value \<^verbatim>\<open>float\<close> gives a literal;
  \<^item> \<open>float_gt v n\<close>: \<^verbatim>\<open>v > n\<close>; \<open>float_sub v n\<close>: \<^verbatim>\<open>v - n\<close>;
    \<open>float_pow v n\<close>: \<^verbatim>\<open>v ** n\<close>, for a Python integer \<open>n\<close>;
  \<^item> \<open>math_log\<close>: \<^verbatim>\<open>math.log\<close>; \<open>float_int\<close>: \<^verbatim>\<open>int(v)\<close>;
    \<open>float_str\<close>: \<^verbatim>\<open>str(v)\<close>;
  \<^item> \<open>set_iter xs\<close>: the order in which a set is iterated after the elements \<open>xs\<close>
    were added to it.
  Theorems about the pipeline hold for every such record; \<open>exact_lib\<close> below is the
  instance used to evaluate the code on concrete inputs.
\<close>

record 'f pylib =
  float_value :: "float_lit \<Rightarrow> 'f"
  float_gt :: "'f \<Rightarrow> int \<Rightarrow> bool"
  float_sub :: "'f \<Rightarrow> int \<Rightarrow> 'f"
  math_log :: "'f \<Rightarrow> error + 'f"
  float_pow :: "'f \<Rightarrow> int \<Rightarrow> error + 'f"
  float_int :: "'f \<Rightarrow> error + int"
  float_str :: "'f \<Rightarrow> string"
  set_iter :: "string list \<Rightarrow> string list"


section \<open>The numeric discretizer\<close>

text \<open>
  \<^verbatim>\<open>
  def convert_numeric_feature(val: str):
      if val == '':
          return 'NULL'
      v = float(val)
      if v > 2:
          return str(int(math.log(v) ** 2))
      else:
          return str(v - 2)
  \<close>
\<close>

definition convert_numeric_feature :: "'f pylib \<Rightarrow> string \<Rightarrow> error + string" where
  "convert_numeric_feature L val =
     (if val = [] then Inr ''NULL''
      else case parse_float val of
             None \<Rightarrow> Inl ValueError
           | Some lit \<Rightarrow>
               (let v = float_value L lit in
                if float_gt L v 2 then
                  (case math_log L v of
                     Inl e \<Rightarrow> Inl e
                   | Inr l \<Rightarrow>
                       (case float_pow L l 2 of
                          Inl e \<Rightarrow> Inl e
                        | Inr p \<Rightarrow>
                            (case float_int L p of
                               Inl e \<Rightarrow> Inl e
                             | Inr k \<Rightarrow> Inr (str_int k))))
                else Inr (float_str L (float_sub L v 2))))"

subsection \<open>An instance with exact arithmetic\<close>

text \<open>
  \<open>exact_lib\<close> computes on the real number a literal denotes, with the infinities and
  not-a-number of IEEE arithmetic, and iterates a set in insertion order. It agrees with
  Python wherever Python's double arithmetic is exact, which covers the integer-valued
  count features of the data set; it does not round.
\<close>

datatype xfloat = Fin real | PInf | NInf | NaN

definition pow10 :: "int \<Rightarrow> real" where
  "pow10 k = (if 0 \<le> k then 10 ^ nat k else 1 / 10 ^ nat (- k))"

fun x_value :: "float_lit \<Rightarrow> xfloat" where
  "x_value (LitNum neg a b e) =
     Fin ((if neg then - 1 else 1) * real (nat_of_digits (a @ b)) * pow10 (e - int (length b)))"
| "x_value (LitInf neg) = (if neg then NInf else PInf)"
| "x_value (LitNan neg) = NaN"

fun x_gt :: "xfloat \<Rightarrow> int \<Rightarrow> bool" where
  "x_gt (Fin a) n = (real_of_int n < a)"
| "x_gt PInf n = True"
| "x_gt NInf n = False"
| "x_gt NaN n = False"

fun x_sub :: "xfloat \<Rightarrow> int \<Rightarrow> xfloat" where
  "x_sub (Fin a) n = Fin (a - real_of_int n)"
| "x_sub PInf n = PInf"
| "x_sub NInf n = NInf"
| "x_sub NaN n = NaN"

fun x_log :: "xfloat \<Rightarrow> error + xfloat" where
  "x_log (Fin a) = (if a \<le> 0 then Inl ValueError else Inr (Fin (ln a)))"
| "x_log PInf = Inr PInf"
| "x_log NInf = Inl ValueError"
| "x_log NaN = Inr NaN"

fun x_pow :: "xfloat \<Rightarrow> int \<Rightarrow> error + xfloat" where
  "x_pow (Fin a) n =
     (if 0 \<le> n then Inr (Fin (a ^ nat n))
      else if a = 0 then Inl ZeroDivisionError
      else Inr (Fin (1 / a ^ nat (- n))))"
| "x_pow PInf n = Inr (if 0 < n then PInf else if n = 0 then Fin 1 else Fin 0)"
| "x_pow NInf n =
     Inr (if 0 < n then (if even n then PInf else NInf) else if n = 0 then Fin 1 else Fin 0)"
| "x_pow NaN n = Inr (if n = 0 then Fin 1 else NaN)"

fun x_int :: "xfloat \<Rightarrow> error + int" where
  "x_int (Fin a) = Inr (if 0 \<le> a then \<lfloor>a\<rfloor> else \<lceil>a\<rceil>)"
| "x_int PInf = Inl OverflowError"
| "x_int NInf = Inl OverflowError"
| "x_int NaN = Inl ValueError"

fun frac_digits :: "nat \<Rightarrow> real \<Rightarrow> string" where
  "frac_digits 0 f = []"
| "frac_digits (Suc n) f =
     (if f = 0 then []
      else digit_char (nat \<lfloor>10 * f\<rfloor>) # frac_digits n (10 * f - real_of_int \<lfloor>10 * f\<rfloor>))"

definition str_real :: "real \<Rightarrow> string" where
  "str_real a =
     (let ds = frac_digits 17 (\<bar>a\<bar> - real_of_int \<lfloor>\<bar>a\<bar>\<rfloor>)
      in (if a < 0 then ''-'' else []) @ str_nat (nat \<lfloor>\<bar>a\<bar>\<rfloor>) @ ''.''
           @ (if ds = [] then ''0'' else ds))"

fun x_str :: "xfloat \<Rightarrow> string" where
  "x_str (Fin a) = str_real a"
| "x_str PInf = ''inf''"
| "x_str NInf = ''-inf''"
| "x_str NaN = ''nan''"

definition exact_lib :: "xfloat pylib" where
  "exact_lib =
     \<lparr>float_value = x_value, float_gt = x_gt, float_sub = x_sub, math_log = x_log,
      float_pow = x_pow, float_int = x_int, float_str = x_str, set_iter = remdups\<rparr>"

section \<open>The data set class\<close>

text \<open>The constants \<^verbatim>\<open>self.NUM_FEATS\<close> and \<^verbatim>\<open>self.NUM_INT_FEATS\<close>.\<close>

definition NUM_FEATS :: nat where
  "NUM_FEATS = 39"

definition NUM_INT_FEATS :: nat where
  "NUM_INT_FEATS = 13"

text \<open>
  A Python \<^verbatim>\<open>dict\<close> is an association list in insertion order with distinct keys:
  \<open>AList.update\<close> is item assignment, \<open>map_of\<close> is \<^verbatim>\<open>dict.get\<close>, the length of
  the list is \<^verbatim>\<open>len\<close>. \<open>dict_item\<close> is \<^verbatim>\<open>d[k]\<close>, which raises on a missing key,
  and \<open>dict_of\<close> builds a dictionary from the pairs of a comprehension.
\<close>

type_synonym vocab = "(string \<times> nat) list"
type_synonym feat_mapper = "(nat \<times> vocab) list"
type_synonym defaults = "(nat \<times> nat) list"
type_synonym counts = "(nat \<times> (string \<times> nat) list) list"

definition dict_item :: "('k \<times> 'v) list \<Rightarrow> 'k \<Rightarrow> error + 'v" where
  "dict_item d k = (case map_of d k of None \<Rightarrow> Inl KeyError | Some v \<Rightarrow> Inr v)"

definition dict_of :: "('k \<times> 'v) list \<Rightarrow> ('k \<times> 'v) list" where
  "dict_of ps = foldl (\<lambda>d (k, v). AList.update k v d) [] ps"

subsection \<open>First pass: counting, \<^verbatim>\<open>__get_feat_mapper\<close>\<close>

text \<open>
  \<^verbatim>\<open>feat_cnts[i][tok] += 1\<close> on a \<^verbatim>\<open>defaultdict\<close> of \<^verbatim>\<open>defaultdict(int)\<close>:
  a missing field gets an empty dictionary, a missing token the count 0.
\<close>

definition incr_count :: "nat \<Rightarrow> string \<Rightarrow> counts \<Rightarrow> counts" where
  "incr_count i tok cnts =
     (let inner = (case map_of cnts i of None \<Rightarrow> [] | Some d \<Rightarrow> d);
          c = (case map_of inner tok of None \<Rightarrow> 0 | Some n \<Rightarrow> n)
      in AList.update i (AList.update tok (c + 1) inner) cnts)"

text \<open>
  \<^verbatim>\<open>
  for i in range(1, self.NUM_INT_FEATS + 1):
      feat_cnts[i][convert_numeric_feature(values[i])] += 1
  for i in range(self.NUM_INT_FEATS + 1, self.NUM_FEATS + 1):
      feat_cnts[i][values[i]] += 1
  \<close>
  The loops run over the list of indices; an exception of the discretizer ends the pass.
\<close>

fun count_int_feats :: "'f pylib \<Rightarrow> string list \<Rightarrow> nat list \<Rightarrow> counts \<Rightarrow> error + counts" where
  "count_int_feats L values [] cnts = Inr cnts"
| "count_int_feats L values (i # is) cnts =
     (case convert_numeric_feature L (values ! i) of
        Inl e \<Rightarrow> Inl e
      | Inr tok \<Rightarrow> count_int_feats L values is (incr_count i tok cnts))"

fun count_cat_feats :: "string list \<Rightarrow> nat list \<Rightarrow> counts \<Rightarrow> counts" where
  "count_cat_feats values [] cnts = cnts"
| "count_cat_feats values (i # is) cnts =
     count_cat_feats values is (incr_count i (values ! i) cnts)"

fun count_lines :: "'f pylib \<Rightarrow> string list \<Rightarrow> counts \<Rightarrow> error + counts" where
  "count_lines L [] cnts = Inr cnts"
| "count_lines L (line # ls) cnts =
     (let values = split_comma (rstrip_nl line) in
      if length values \<noteq> NUM_FEATS + 1 then count_lines L ls cnts
      else case count_int_feats L values [1..<NUM_INT_FEATS + 1] cnts of
             Inl e \<Rightarrow> Inl e
           | Inr c1 \<Rightarrow>
               count_lines L ls
                 (count_cat_feats values [NUM_INT_FEATS + 1..<NUM_FEATS + 1] c1))"

text \<open>
  \<^verbatim>\<open>
  feat_mapper = {i: {feat for feat, c in cnt.items() if c >= self.min_threshold}
                 for i, cnt in feat_cnts.items()}
  feat_mapper = {i: {feat: idx for idx, feat in enumerate(cnt)}
                 for i, cnt in feat_mapper.items()}
  defaults = {i: len(cnt) for i, cnt in feat_mapper.items()}
  \<close>
  \<open>f.readline()\<close> drops the first line of the file, whatever it holds.
\<close>

definition kept_tokens :: "'f pylib \<Rightarrow> int \<Rightarrow> (string \<times> nat) list \<Rightarrow> string list" where
  "kept_tokens L min_threshold cnt =
     set_iter L (map fst (filter (\<lambda>(feat, c). min_threshold \<le> int c) cnt))"

definition enumerate_dict :: "string list \<Rightarrow> vocab" where
  "enumerate_dict cnt = dict_of (zip cnt [0..<length cnt])"

definition get_feat_mapper ::
  "'f pylib \<Rightarrow> int \<Rightarrow> files \<Rightarrow> string \<Rightarrow> error + (feat_mapper \<times> defaults)" where
  "get_feat_mapper L min_threshold fs path =
     (case read_lines fs path of
        Inl e \<Rightarrow> Inl e
      | Inr lines \<Rightarrow>
          (case count_lines L (drop 1 lines) [] of
             Inl e \<Rightarrow> Inl e
           | Inr feat_cnts \<Rightarrow>
               (let kept = map (\<lambda>(i, cnt). (i, kept_tokens L min_threshold cnt)) feat_cnts;
                    feat_mapper = map (\<lambda>(i, cnt). (i, enumerate_dict cnt)) kept;
                    defaults = map (\<lambda>(i, cnt). (i, length cnt)) feat_mapper
                in Inr (feat_mapper, defaults))))"

subsection \<open>Arrays of unsigned 32-bit integers and their bytes\<close>

text \<open>
  Storing a Python integer in a \<^verbatim>\<open>uint32\<close> array raises \<^verbatim>\<open>OverflowError\<close> when
  it is out of range (NumPy 2, which has the \<^verbatim>\<open>np.long\<close> the reader uses).
  \<^verbatim>\<open>tobytes\<close> writes each element as four bytes, least significant first, and
  \<^verbatim>\<open>np.frombuffer\<close> reads them back; it raises \<^verbatim>\<open>ValueError\<close> when the buffer
  is not a whole number of elements. \<^verbatim>\<open>struct.pack('>I', n)\<close> writes the four bytes
  of \<open>n\<close>, most significant first, and raises \<^verbatim>\<open>struct.error\<close> out of range.
\<close>

type_synonym bytes = "8 word list"

definition to_uint32 :: "int \<Rightarrow> error + 32 word" where
  "to_uint32 n = (if 0 \<le> n \<and> n < 2 ^ 32 then Inr (word_of_int n) else Inl OverflowError)"

definition byte_of :: "32 word \<Rightarrow> nat \<Rightarrow> 8 word" where
  "byte_of w k = of_nat (unat w div 256 ^ k mod 256)"

definition le32 :: "32 word \<Rightarrow> bytes" where
  "le32 w = [byte_of w 0, byte_of w 1, byte_of w 2, byte_of w 3]"

definition be32 :: "32 word \<Rightarrow> bytes" where
  "be32 w = [byte_of w 3, byte_of w 2, byte_of w 1, byte_of w 0]"

definition of_le32 :: "8 word \<Rightarrow> 8 word \<Rightarrow> 8 word \<Rightarrow> 8 word \<Rightarrow> 32 word" where
  "of_le32 a b c d = of_nat (unat a + 256 * unat b + 256 ^ 2 * unat c + 256 ^ 3 * unat d)"

definition tobytes :: "32 word list \<Rightarrow> bytes" where
  "tobytes ws = concat (map le32 ws)"

fun frombuffer :: "bytes \<Rightarrow> error + 32 word list" where
  "frombuffer [] = Inr []"
| "frombuffer (a # b # c # d # rest) =
     (case frombuffer rest of Inl e \<Rightarrow> Inl e | Inr ws \<Rightarrow> Inr (of_le32 a b c d # ws))"
| "frombuffer _ = Inl ValueError"

definition pack_be32 :: "int \<Rightarrow> error + bytes" where
  "pack_be32 n = (if 0 \<le> n \<and> n < 2 ^ 32 then Inr (be32 (word_of_int n)) else Inl StructError)"

text \<open>The key \<^verbatim>\<open>b'field_dims'\<close>.\<close>

definition field_dims_key :: bytes where
  "field_dims_key = [0x66, 0x69, 0x65, 0x6C, 0x64, 0x5F, 0x64, 0x69, 0x6D, 0x73]"

text \<open>Indexing an array of length \<open>n\<close>: a negative index counts from the end.\<close>

definition np_index :: "nat \<Rightarrow> int \<Rightarrow> error + nat" where
  "np_index n j =
     (if 0 \<le> j \<and> j < int n then Inr (nat j)
      else if - int n \<le> j \<and> j < 0 then Inr (nat (int n + j))
      else Inl IndexError)"

subsection \<open>Second pass: encoding, \<^verbatim>\<open>__yield_buffer\<close>\<close>

text \<open>
  \<^verbatim>\<open>
  np_array = np.zeros(self.NUM_FEATS + 1, dtype=np.uint32)
  np_array[0] = int(values[0])
  for i in range(1, self.NUM_INT_FEATS + 1):
      np_array[i] = feat_mapper[i].get(convert_numeric_feature(values[i]), defaults[i])
  for i in range(self.NUM_INT_FEATS + 1, self.NUM_FEATS + 1):
      np_array[i] = feat_mapper[i].get(values[i], defaults[i])
  \<close>
  Python evaluates \<^verbatim>\<open>feat_mapper[i]\<close>, then the token, then \<^verbatim>\<open>defaults[i]\<close>, and
  each can raise.
\<close>

definition encode_code :: "feat_mapper \<Rightarrow> defaults \<Rightarrow> nat \<Rightarrow> error + string \<Rightarrow> error + 32 word" where
  "encode_code feat_mapper defaults i tok =
     (case dict_item feat_mapper i of
        Inl e \<Rightarrow> Inl e
      | Inr fm \<Rightarrow>
          (case tok of
             Inl e \<Rightarrow> Inl e
           | Inr t \<Rightarrow>
               (case dict_item defaults i of
                  Inl e \<Rightarrow> Inl e
                | Inr d \<Rightarrow> to_uint32 (int (case map_of fm t of None \<Rightarrow> d | Some c \<Rightarrow> c)))))"

fun set_int_feats ::
  "'f pylib \<Rightarrow> feat_mapper \<Rightarrow> defaults \<Rightarrow> string list \<Rightarrow> nat list \<Rightarrow> 32 word list
     \<Rightarrow> error + 32 word list" where
  "set_int_feats L feat_mapper defaults values [] np_array = Inr np_array"
| "set_int_feats L feat_mapper defaults values (i # is) np_array =
     (case encode_code feat_mapper defaults i (convert_numeric_feature L (values ! i)) of
        Inl e \<Rightarrow> Inl e
      | Inr w \<Rightarrow> set_int_feats L feat_mapper defaults values is (np_array[i := w]))"

fun set_cat_feats ::
  "feat_mapper \<Rightarrow> defaults \<Rightarrow> string list \<Rightarrow> nat list \<Rightarrow> 32 word list
     \<Rightarrow> error + 32 word list" where
  "set_cat_feats feat_mapper defaults values [] np_array = Inr np_array"
| "set_cat_feats feat_mapper defaults values (i # is) np_array =
     (case encode_code feat_mapper defaults i (Inr (values ! i)) of
        Inl e \<Rightarrow> Inl e
      | Inr w \<Rightarrow> set_cat_feats feat_mapper defaults values is (np_array[i := w]))"

definition encode_record ::
  "'f pylib \<Rightarrow> feat_mapper \<Rightarrow> defaults \<Rightarrow> string list \<Rightarrow> error + 32 word list" where
  "encode_record L feat_mapper defaults values =
     (case py_int (values ! 0) of
        Inl e \<Rightarrow> Inl e
      | Inr n \<Rightarrow>
          (case to_uint32 n of
             Inl e \<Rightarrow> Inl e
           | Inr w \<Rightarrow>
               (case set_int_feats L feat_mapper defaults values [1..<NUM_INT_FEATS + 1]
                       ((replicate (NUM_FEATS + 1) 0)[0 := w]) of
                  Inl e \<Rightarrow> Inl e
                | Inr a \<Rightarrow>
                    set_cat_feats feat_mapper defaults values
                      [NUM_INT_FEATS + 1..<NUM_FEATS + 1] a)))"

text \<open>
  The generator: its result is the list of the buffers it yields, each as it is when
  yielded (the consumer writes a buffer before the generator resumes and clears it), or
  the exception that ends it. \<^verbatim>\<open>item_idx % buffer_size\<close> raises on a zero size.
\<close>

type_synonym buffer = "(bytes \<times> bytes) list"

fun yield_lines ::
  "'f pylib \<Rightarrow> nat \<Rightarrow> feat_mapper \<Rightarrow> defaults \<Rightarrow> string list \<Rightarrow> nat \<Rightarrow> buffer
     \<Rightarrow> error + buffer list" where
  "yield_lines L buffer_size feat_mapper defaults [] item_idx buffer = Inr [buffer]"
| "yield_lines L buffer_size feat_mapper defaults (line # ls) item_idx buffer =
     (let values = split_comma (rstrip_nl line) in
      if length values \<noteq> NUM_FEATS + 1
      then yield_lines L buffer_size feat_mapper defaults ls item_idx buffer
      else case encode_record L feat_mapper defaults values of
             Inl e \<Rightarrow> Inl e
           | Inr np_array \<Rightarrow>
               (case pack_be32 (int item_idx) of
                  Inl e \<Rightarrow> Inl e
                | Inr key \<Rightarrow>
                    if buffer_size = 0 then Inl ZeroDivisionError
                    else if (item_idx + 1) mod buffer_size = 0 then
                      (case yield_lines L buffer_size feat_mapper defaults ls (item_idx + 1) [] of
                         Inl e \<Rightarrow> Inl e
                       | Inr bs \<Rightarrow> Inr ((buffer @ [(key, tobytes np_array)]) # bs))
                    else yield_lines L buffer_size feat_mapper defaults ls (item_idx + 1)
                           (buffer @ [(key, tobytes np_array)])))"

text \<open>
  \<^verbatim>\<open>
  def __yield_buffer(self, path, feat_mapper, defaults, buffer_size=int(1e5)):
      item_idx = 0
      buffer = list()
      path = 'data/criteo/train_df_GDCN.csv'
      with open(path) as f:
          f.readline()
          ...
  \<close>
  The assignment to \<^verbatim>\<open>path\<close> replaces the argument before the file is opened.
\<close>

definition yield_buffer ::
  "'f pylib \<Rightarrow> files \<Rightarrow> string \<Rightarrow> feat_mapper \<Rightarrow> defaults \<Rightarrow> nat \<Rightarrow> error + buffer list" where
  "yield_buffer L fs path feat_mapper defaults buffer_size =
     (let path = ''data/criteo/train_df_GDCN.csv'' in
      case read_lines fs path of
        Inl e \<Rightarrow> Inl e
      | Inr lines \<Rightarrow> yield_lines L buffer_size feat_mapper defaults (drop 1 lines) 0 [])"

subsection \<open>The cache writer, \<^verbatim>\<open>__build_cache\<close>\<close>

text \<open>
  The store is the LMDB environment: an association list from keys to values with
  distinct keys, \<^verbatim>\<open>txn.put\<close> replacing the value of a key that is present.
  \<^verbatim>\<open>__init__\<close> removes the cache directory before it calls \<^verbatim>\<open>__build_cache\<close>,
  so the build starts from the empty store. A build that raises returns the exception.
\<close>

type_synonym store = "(bytes \<times> bytes) list"

definition put :: "bytes \<times> bytes \<Rightarrow> store \<Rightarrow> store" where
  "put kv env = AList.update (fst kv) (snd kv) env"

definition write_buffers :: "buffer list \<Rightarrow> store \<Rightarrow> store" where
  "write_buffers buffers env = fold (\<lambda>buffer env. fold put buffer env) buffers env"

text \<open>
  \<^verbatim>\<open>
  field_dims = np.zeros(self.NUM_FEATS, dtype=np.uint32)
  for i, fm in feat_mapper.items():
      field_dims[i - 1] = len(fm) + 1
  \<close>
\<close>

fun set_field_dims :: "feat_mapper \<Rightarrow> 32 word list \<Rightarrow> error + 32 word list" where
  "set_field_dims [] field_dims = Inr field_dims"
| "set_field_dims ((i, fm) # rest) field_dims =
     (case np_index (length field_dims) (int i - 1) of
        Inl e \<Rightarrow> Inl e
      | Inr k \<Rightarrow>
          (case to_uint32 (int (length fm) + 1) of
             Inl e \<Rightarrow> Inl e
           | Inr w \<Rightarrow> set_field_dims rest (field_dims[k := w])))"

text \<open>
  \<open>min_threshold\<close> and \<open>prefix\<close> are the attributes of \<^verbatim>\<open>self\<close> the method reads;
  the optional pair is the arguments \<^verbatim>\<open>feat_mapper\<close> and \<^verbatim>\<open>defaults\<close>, which the
  callers pass together or not at all. The generator is called with its default
  \<^verbatim>\<open>buffer_size\<close> of \<^verbatim>\<open>int(1e5)\<close>.
\<close>

definition build_cache ::
  "'f pylib \<Rightarrow> int \<Rightarrow> string \<Rightarrow> files \<Rightarrow> string \<Rightarrow> (feat_mapper \<times> defaults) option
     \<Rightarrow> error + store" where
  "build_cache L min_threshold prefix fs path given =
     (let temp_path = ''data/'' @ prefix @ ''train_df_GDCN.csv'' in
      case (case given of
              None \<Rightarrow> get_feat_mapper L min_threshold fs temp_path
            | Some fd \<Rightarrow> Inr fd) of
        Inl e \<Rightarrow> Inl e
      | Inr (feat_mapper, defaults) \<Rightarrow>
          (case set_field_dims feat_mapper (replicate NUM_FEATS 0) of
             Inl e \<Rightarrow> Inl e
           | Inr field_dims \<Rightarrow>
               (let env = put (field_dims_key, tobytes field_dims) [] in
                case yield_buffer L fs path feat_mapper defaults 100000 of
                  Inl e \<Rightarrow> Inl e
                | Inr buffers \<Rightarrow> Inr (write_buffers buffers env))))"

subsection \<open>The reader: \<^verbatim>\<open>__init__\<close>, \<^verbatim>\<open>__len__\<close> and \<^verbatim>\<open>__getitem__\<close>\<close>

text \<open>
  \<^verbatim>\<open>
  self.length = txn.stat()['entries'] - 1
  self.field_dims = np.frombuffer(txn.get(b'field_dims'), dtype=np.uint32)
  \<close>
  \<^verbatim>\<open>txn.get\<close> returns \<^verbatim>\<open>None\<close> for a missing key, on which \<^verbatim>\<open>np.frombuffer\<close>
  raises \<^verbatim>\<open>TypeError\<close>.
\<close>

record dataset =
  env :: store
  len :: int
  field_dims :: "32 word list"

definition open_cache :: "store \<Rightarrow> error + dataset" where
  "open_cache st =
     (case map_of st field_dims_key of
        None \<Rightarrow> Inl TypeError
      | Some b \<Rightarrow>
          (case frombuffer b of
             Inl e \<Rightarrow> Inl e
           | Inr fd \<Rightarrow> Inr \<lparr>env = st, len = int (length st) - 1, field_dims = fd\<rparr>))"

text \<open>
  \<^verbatim>\<open>
  def __getitem__(self, index):
      with self.env.begin(write=False) as txn:
          np_array = np.frombuffer(
              txn.get(struct.pack('>I', index)), dtype=np.uint32).astype(dtype=np.long)
      return np_array[1:], np_array[0]
  \<close>
  The conversion to \<^verbatim>\<open>np.long\<close> keeps the value of each unsigned element.
\<close>

definition getitem :: "dataset \<Rightarrow> int \<Rightarrow> error + (int list \<times> int)" where
  "getitem self index =
     (case pack_be32 index of
        Inl e \<Rightarrow> Inl e
      | Inr key \<Rightarrow>
          (case map_of (env self) key of
             None \<Rightarrow> Inl TypeError
           | Some b \<Rightarrow>
               (case frombuffer b of
                  Inl e \<Rightarrow> Inl e
                | Inr ws \<Rightarrow>
                    (case map uint ws of
                       [] \<Rightarrow> Inl IndexError
                     | x # xs \<Rightarrow> Inr (xs, x)))))"

section \<open>Notions the properties are stated with\<close>

text \<open>
  The file the encoding pass opens, the data lines of a file (all lines after the first),
  the well-formed lines (those with \<open>NUM_FEATS + 1\<close> comma-separated fields) and the
  records, the field lists of the well-formed data lines in file order.
\<close>

definition criteo_train_csv :: string where
  "criteo_train_csv = ''data/criteo/train_df_GDCN.csv''"

definition data_lines :: "string \<Rightarrow> string list" where
  "data_lines content = drop 1 (file_lines (universal_newlines content))"

definition well_formed :: "string \<Rightarrow> bool" where
  "well_formed line = (length (split_comma (rstrip_nl line)) = NUM_FEATS + 1)"

definition records :: "string list \<Rightarrow> string list list" where
  "records lines = map (\<lambda>l. split_comma (rstrip_nl l)) (filter well_formed lines)"



text \<open>
  The store entries of a sequence of encoded records numbered from \<open>idx\<close>: the key of a
  record is its big-endian index, its value the bytes of its array.
\<close>

fun entries_from :: "nat \<Rightarrow> 32 word list list \<Rightarrow> (bytes \<times> bytes) list" where
  "entries_from idx [] = []"
| "entries_from idx (a # as) = (be32 (of_nat idx), tobytes a) # entries_from (Suc idx) as"

text \<open>
  Writing without buffers, as the reference for the batched writer: every well-formed line
  is encoded and put into the store at once, under the next index.
\<close>

fun write_one_by_one ::
  "'f pylib \<Rightarrow> feat_mapper \<Rightarrow> defaults \<Rightarrow> string list \<Rightarrow> nat \<Rightarrow> store \<Rightarrow> error + store" where
  "write_one_by_one L feat_mapper defaults [] item_idx st = Inr st"
| "write_one_by_one L feat_mapper defaults (line # ls) item_idx st =
     (let values = split_comma (rstrip_nl line) in
      if length values \<noteq> NUM_FEATS + 1
      then write_one_by_one L feat_mapper defaults ls item_idx st
      else case encode_record L feat_mapper defaults values of
             Inl e \<Rightarrow> Inl e
           | Inr np_array \<Rightarrow>
               (case pack_be32 (int item_idx) of
                  Inl e \<Rightarrow> Inl e
                | Inr key \<Rightarrow>
                    write_one_by_one L feat_mapper defaults ls (item_idx + 1)
                      (put (key, tobytes np_array) st)))"

text \<open>
  The count the first pass holds for a token of a field (0 when the field or the token is
  missing), and the shape of the counting dictionaries: distinct keys, and a positive
  count for every token that is present.
\<close>

definition count_of :: "counts \<Rightarrow> nat \<Rightarrow> string \<Rightarrow> nat" where
  "count_of cnts i t =
     (case map_of cnts i of
        None \<Rightarrow> 0
      | Some d \<Rightarrow> (case map_of d t of None \<Rightarrow> 0 | Some c \<Rightarrow> c))"

definition inner_ok :: "(string \<times> nat) list \<Rightarrow> bool" where
  "inner_ok d = (distinct (map fst d) \<and> (\<forall>t c. map_of d t = Some c \<longrightarrow> 0 < c))"

definition counts_ok :: "counts \<Rightarrow> bool" where
  "counts_ok cnts =
     (distinct (map fst cnts) \<and> (\<forall>i d. map_of cnts i = Some d \<longrightarrow> inner_ok d))"

section \<open>A sample file\<close>

text \<open>
  A file with a header, one well-formed data line (label 1, first numeric field 1, first
  categorical field \<open>a\<close>, every other field empty) and one malformed line, at the path the
  encoding pass opens; a file system with only a header there; and one that has the sample
  at the path of a test set and only a header at the path the encoding pass opens.
\<close>

definition sample_row :: string where
  "sample_row = ''1,1,,,,,,,,,,,,,a,,,,,,,,,,,,,,,,,,,,,,,,,''"

definition sample_header :: string where
  "sample_header = ''label,fields''"

definition sample_bad :: string where
  "sample_bad = ''bad,row''"

definition sample_csv :: string where
  "sample_csv = sample_header @ [CHR 0x0A] @ sample_row @ [CHR 0x0A] @ sample_bad @ [CHR 0x0A]"

definition sample_files :: files where
  "sample_files = (\<lambda>p. if p = criteo_train_csv then Some sample_csv else None)"

definition header_only_files :: files where
  "header_only_files = (\<lambda>p. if p = criteo_train_csv then Some sample_header else None)"

definition sample_feat_mapper :: feat_mapper where
  "sample_feat_mapper =
    [(1, [(''-1.0'', 0)]), (2, [(''NULL'', 0)]), (3, [(''NULL'', 0)]),
      (4, [(''NULL'', 0)]), (5, [(''NULL'', 0)]), (6, [(''NULL'', 0)]),
      (7, [(''NULL'', 0)]), (8, [(''NULL'', 0)]), (9, [(''NULL'', 0)]),
      (10, [(''NULL'', 0)]), (11, [(''NULL'', 0)]), (12, [(''NULL'', 0)]),
      (13, [(''NULL'', 0)]), (14, [(''a'', 0)]), (15, [([], 0)]), (16, [([], 0)]),
      (17, [([], 0)]), (18, [([], 0)]), (19, [([], 0)]), (20, [([], 0)]), (21, [([], 0)]),
      (22, [([], 0)]), (23, [([], 0)]), (24, [([], 0)]), (25, [([], 0)]), (26, [([], 0)]),
      (27, [([], 0)]), (28, [([], 0)]), (29, [([], 0)]), (30, [([], 0)]), (31, [([], 0)]),
      (32, [([], 0)]), (33, [([], 0)]), (34, [([], 0)]), (35, [([], 0)]), (36, [([], 0)]),
      (37, [([], 0)]), (38, [([], 0)]), (39, [([], 0)])]"

definition sample_defaults :: defaults where
  "sample_defaults =
    [(1, 1), (2, 1), (3, 1), (4, 1), (5, 1), (6, 1), (7, 1), (8, 1), (9, 1), (10, 1),
      (11, 1), (12, 1), (13, 1), (14, 1), (15, 1), (16, 1), (17, 1), (18, 1), (19, 1),
      (20, 1), (21, 1), (22, 1), (23, 1), (24, 1), (25, 1), (26, 1), (27, 1), (28, 1),
      (29, 1), (30, 1), (31, 1), (32, 1), (33, 1), (34, 1), (35, 1), (36, 1), (37, 1),
      (38, 1), (39, 1)]"

definition sample_array :: "32 word list" where
  "sample_array = 1 # replicate 39 0"

definition sample_store :: store where
  "sample_store =
     [(field_dims_key, tobytes (replicate 39 2)), (be32 0, tobytes sample_array)]"

definition test_csv_path :: string where
  "test_csv_path = ''criteoTest/test_df_GDCN.csv''"

definition test_files :: files where
  "test_files =
     (\<lambda>p. if p = test_csv_path then Some sample_csv
          else if p = criteo_train_csv then Some sample_header
          else None)"


section \<open>Properties of the discretizer\<close>

lemma frac_digits_zero [simp]: "frac_digits n 0 = []"
  by (cases n) simp_all

lemmas parse_defs = is_space_def strip_def is_digit_def digit_val_def nat_of_digits_def
  signed_digits_def ci_match_def parse_number_def parse_signed_def parse_float_def Let_def

lemma ln3_floor: "\<lfloor>(ln (3::real))\<^sup>2\<rfloor> = 1"
proof -
  have l1: "(1::real) \<le> ln 3"
    by (simp add: exp_le ln_ge_iff)
  have "(3::real) < 1 + (14/10) + (14/10)\<^sup>2 / 2"
    by (simp add: power2_eq_square)
  also have "\<dots> \<le> exp (14/10 :: real)"
    by (rule exp_lower_Taylor_quadratic) simp
  finally have "ln (3::real) < 14/10"
    using ln_less_cancel_iff [of 3 "exp (14/10)"] by simp
  then have "(ln (3::real))\<^sup>2 < (14/10)\<^sup>2"
    using l1 by (intro power_strict_mono) simp_all
  then have u: "(ln (3::real))\<^sup>2 < 2"
    by (simp add: power2_eq_square)
  have "(1::real)\<^sup>2 \<le> (ln 3)\<^sup>2"
    using l1 by (intro power_mono) simp_all
  then have l: "1 \<le> (ln (3::real))\<^sup>2"
    by simp
  show ?thesis
    using l u by (simp add: floor_eq_iff)
qed

lemma cnf_exact:
  "convert_numeric_feature exact_lib s =
     (if s = [] then Inr ''NULL''
      else case parse_float s of
             None \<Rightarrow> Inl ValueError
           | Some lit \<Rightarrow>
               (case x_value lit of
                  Fin v \<Rightarrow> if 2 < v then Inr (str_int \<lfloor>(ln v)\<^sup>2\<rfloor>) else Inr (str_real (v - 2))
                | PInf \<Rightarrow> Inl OverflowError
                | NInf \<Rightarrow> Inr ''-inf''
                | NaN \<Rightarrow> Inr ''nan''))"
  by (auto simp: convert_numeric_feature_def exact_lib_def Let_def
           split: option.splits xfloat.splits)

lemma parse_float_3: "parse_float ''3.0'' = Some (LitNum False [3] [0] 0)"
  by (simp add: parse_defs)

lemma parse_float_1: "parse_float ''1.0'' = Some (LitNum False [1] [0] 0)"
  by (simp add: parse_defs)

lemma parse_float_m1: "parse_float ''-1.0'' = Some (LitNum True [1] [0] 0)"
  by (simp add: parse_defs)

lemma parse_float_int1: "parse_float ''1'' = Some (LitNum False [1] [] 0)"
  by (simp add: parse_defs)

lemma parse_float_NULL: "parse_float ''NULL'' = None"
  by (simp add: parse_defs)


lemma parse_float_minf: "parse_float ''-inf'' = Some (LitInf True)"
  by (simp add: parse_defs)

lemma parse_float_nan: "parse_float ''nan'' = Some (LitNan False)"
  by (simp add: parse_defs)

lemma cnf_3: "convert_numeric_feature exact_lib ''3.0'' = Inr ''1''"
  by (simp add: cnf_exact parse_float_3 nat_of_digits_def pow10_def ln3_floor str_int_def
        digit_char_def)

lemma cnf_1: "convert_numeric_feature exact_lib ''1.0'' = Inr ''-1.0''"
  by (simp add: cnf_exact parse_float_1 nat_of_digits_def pow10_def str_real_def digit_char_def)

lemma cnf_int1: "convert_numeric_feature exact_lib ''1'' = Inr ''-1.0''"
  by (simp add: cnf_exact parse_float_int1 nat_of_digits_def pow10_def str_real_def
        digit_char_def)

lemma cnf_m1: "convert_numeric_feature exact_lib ''-1.0'' = Inr ''-3.0''"
  by (simp add: cnf_exact parse_float_m1 nat_of_digits_def pow10_def str_real_def
        digit_char_def)

lemma cnf_NULL: "convert_numeric_feature L ''NULL'' = Inl ValueError"
  by (simp add: convert_numeric_feature_def parse_float_NULL)

lemma cnf_empty: "convert_numeric_feature L [] = Inr ''NULL''"
  by (simp add: convert_numeric_feature_def)


lemma cnf_minf: "convert_numeric_feature exact_lib ''-inf'' = Inr ''-inf''"
  by (simp add: cnf_exact parse_float_minf)

lemma cnf_nan: "convert_numeric_feature exact_lib ''nan'' = Inr ''nan''"
  by (simp add: cnf_exact parse_float_nan)




text \<open>
  Claim C7, as stated: feeding the token of any raw string back into the discretizer gives
  the same token. It fails on the empty string: the token is \<open>NULL\<close>, and the discretizer
  raises the parse error on \<open>NULL\<close>.
\<close>

theorem C7_idempotence_counterexample:
  "(case convert_numeric_feature exact_lib [] of
      Inl e \<Rightarrow> Inl e
    | Inr t \<Rightarrow> convert_numeric_feature exact_lib t)
   \<noteq> convert_numeric_feature exact_lib []"
  by (simp add: cnf_empty cnf_NULL)

text \<open>
  Claim C7, amended: applying the discretizer to its own output is stable on the tokens
  \<open>nan\<close> and \<open>-inf\<close> and not in general. Whatever the floating-point arithmetic, the
  token \<open>NULL\<close> of the empty string is no float literal and the second application raises
  the parse error; a numeric token is bucketed again by the same rule and changes:
  \<open>3.0\<close> gives \<open>1\<close> and then \<open>-1.0\<close>, \<open>1.0\<close> gives \<open>-1.0\<close> and then \<open>-3.0\<close>.
\<close>

theorem C7_discretize_twice:
  "(case convert_numeric_feature L [] of
      Inl e \<Rightarrow> Inl e
    | Inr t \<Rightarrow> convert_numeric_feature L t) = Inl ValueError
   \<and> (case convert_numeric_feature exact_lib ''3.0'' of
        Inl e \<Rightarrow> Inl e
      | Inr t \<Rightarrow> convert_numeric_feature exact_lib t) = Inr ''-1.0''
   \<and> (case convert_numeric_feature exact_lib ''1.0'' of
        Inl e \<Rightarrow> Inl e
      | Inr t \<Rightarrow> convert_numeric_feature exact_lib t) = Inr ''-3.0''
   \<and> (case convert_numeric_feature exact_lib ''nan'' of
        Inl e \<Rightarrow> Inl e
      | Inr t \<Rightarrow> convert_numeric_feature exact_lib t) = convert_numeric_feature exact_lib ''nan''
   \<and> (case convert_numeric_feature exact_lib ''-inf'' of
        Inl e \<Rightarrow> Inl e
      | Inr t \<Rightarrow> convert_numeric_feature exact_lib t) = convert_numeric_feature exact_lib ''-inf''"
  by (simp add: cnf_empty cnf_NULL cnf_3 cnf_1 cnf_int1 cnf_m1 cnf_nan cnf_minf)

section \<open>Bytes and keys\<close>


lemma unat_byte_of: "unat (byte_of w k) = unat w div 256 ^ k mod 256"
  by (simp add: byte_of_def unat_of_nat)

lemma unat_lt_2p32: "unat (w :: 32 word) < 4294967296"
  using unsigned_less [of w, where 'a=nat] by simp

lemma bytes_sum:
  fixes n :: nat
  assumes "n < 4294967296"
  shows "n mod 256 + 256 * (n div 256 mod 256) + 65536 * (n div 65536 mod 256)
      + 16777216 * (n div 16777216 mod 256) = n"
proof -
  have e1: "n div 65536 = n div 256 div 256" by (simp add: div_mult2_eq)
  have e2: "n div 16777216 = n div 256 div 256 div 256" by (simp add: div_mult2_eq)
  define q1 where "q1 = n div 256"
  define q2 where "q2 = q1 div 256"
  define q3 where "q3 = q2 div 256"
  have d1: "n = 256 * q1 + n mod 256" by (simp add: q1_def)
  have d2: "q1 = 256 * q2 + q1 mod 256" by (simp add: q2_def)
  have d3: "q2 = 256 * q3 + q2 mod 256" by (simp add: q3_def)
  have "q3 < 256" using assms by (simp add: q3_def q2_def q1_def div_mult2_eq)
  then have d4: "q3 mod 256 = q3" by simp
  have "n mod 256 + 256 * (q1 mod 256) + 65536 * (q2 mod 256) + 16777216 * (q3 mod 256) = n"
    using d1 d2 d3 d4 by linarith
  then show ?thesis
    by (simp add: e1 e2 q1_def q2_def q3_def)
qed

lemma bytes_sum_top:
  fixes n :: nat
  assumes "n < 4294967296"
  shows "n mod 256 + 256 * (n div 256 mod 256) + 65536 * (n div 65536 mod 256)
      + 16777216 * (n div 16777216) = n"
proof -
  have h: "n div 16777216 mod 256 = n div 16777216" using assms by simp
  show ?thesis using bytes_sum [OF assms] unfolding h .
qed

lemma of_le32_byte_of:
  "of_le32 (byte_of w 0) (byte_of w (Suc 0)) (byte_of w 2) (byte_of w 3) = w"
proof -
  have s: "unat (byte_of w 0) + 256 * unat (byte_of w (Suc 0)) + 256 ^ 2 * unat (byte_of w 2)
      + 256 ^ 3 * unat (byte_of w 3) = unat w"
    using bytes_sum [OF unat_lt_2p32, of w] bytes_sum_top [OF unat_lt_2p32, of w]
    by (simp add: unat_byte_of)
  show ?thesis
    unfolding of_le32_def s by simp
qed

lemma frombuffer_tobytes: "frombuffer (tobytes ws) = Inr ws"
  by (induction ws) (simp_all add: tobytes_def le32_def of_le32_byte_of)

lemma be32_inj: "be32 v = be32 w \<Longrightarrow> v = w"
proof -
  assume h: "be32 v = be32 w"
  have "of_le32 (byte_of v 0) (byte_of v (Suc 0)) (byte_of v 2) (byte_of v 3)
      = of_le32 (byte_of w 0) (byte_of w (Suc 0)) (byte_of w 2) (byte_of w 3)"
    using h by (simp add: be32_def)
  then show ?thesis by (simp only: of_le32_byte_of)
qed

lemma length_be32: "length (be32 w) = 4"
  by (simp add: be32_def)

lemma be32_neq_key: "be32 w \<noteq> field_dims_key"
  using length_be32 [of w] by (auto simp: field_dims_key_def)

lemma length_tobytes: "length (tobytes ws) = 4 * length ws"
  by (induction ws) (simp_all add: tobytes_def le32_def)

section \<open>The store and the batched writer\<close>


lemma update_fresh: "k \<notin> fst ` set al \<Longrightarrow> AList.update k v al = al @ [(k, v)]"
  by (induction al) auto

lemma fold_put_fresh:
  "distinct (map fst kvs) \<Longrightarrow> fst ` set kvs \<inter> fst ` set st = {}
     \<Longrightarrow> fold put kvs st = st @ kvs"
proof (induction kvs arbitrary: st)
  case Nil
  then show ?case by simp
next
  case (Cons kv kvs)
  have f: "fst kv \<notin> fst ` set st" using Cons.prems(2) by auto
  have p: "put kv st = st @ [kv]"
    using update_fresh [OF f, of "snd kv"] by (simp add: put_def)
  have "fold put kvs (st @ [kv]) = (st @ [kv]) @ kvs"
    using Cons.prems by (intro Cons.IH) auto
  then show ?case by (simp add: p)
qed

lemma write_buffers_Cons: "write_buffers (b # bs) st = write_buffers bs (fold put b st)"
  by (simp add: write_buffers_def)

lemma write_buffers_single: "write_buffers [b] st = fold put b st"
  by (simp add: write_buffers_def)

lemma yield_lines_one_by_one:
  "0 < bs \<Longrightarrow>
   (case yield_lines L bs fm d lines idx buf of
      Inl e \<Rightarrow> Inl e
    | Inr buffers \<Rightarrow> Inr (write_buffers buffers st))
   = write_one_by_one L fm d lines idx (fold put buf st)"
proof (induction lines arbitrary: idx buf st)
  case Nil
  then show ?case by (simp add: write_buffers_single)
next
  case (Cons line ls)
  show ?case
  proof (cases "length (split_comma (rstrip_nl line)) \<noteq> NUM_FEATS + 1")
    case True
    then show ?thesis using Cons.IH [OF Cons.prems] by simp
  next
    case wf: False
    show ?thesis
    proof (cases "encode_record L fm d (split_comma (rstrip_nl line))")
      case (Inl e)
      then show ?thesis using wf by simp
    next
      case enc: (Inr a)
      show ?thesis
      proof (cases "pack_be32 (int idx)")
        case (Inl e)
        then show ?thesis using wf enc by simp
      next
        case key: (Inr k)
        show ?thesis
        proof (cases "(idx + 1) mod bs = 0")
          case True
          have "(case yield_lines L bs fm d ls (idx + 1) [] of
                   Inl e \<Rightarrow> Inl e
                 | Inr buffers \<Rightarrow> Inr (write_buffers buffers (fold put (buf @ [(k, tobytes a)]) st)))
               = write_one_by_one L fm d ls (idx + 1) (fold put [] (fold put (buf @ [(k, tobytes a)]) st))"
            by (rule Cons.IH [OF Cons.prems])
          then show ?thesis
            using wf enc key True Cons.prems
            by (simp add: write_buffers_Cons split: sum.splits)
        next
          case False
          have "(case yield_lines L bs fm d ls (idx + 1) (buf @ [(k, tobytes a)]) of
                   Inl e \<Rightarrow> Inl e
                 | Inr buffers \<Rightarrow> Inr (write_buffers buffers st))
               = write_one_by_one L fm d ls (idx + 1) (fold put (buf @ [(k, tobytes a)]) st)"
            by (rule Cons.IH [OF Cons.prems])
          then show ?thesis
            using wf enc key False Cons.prems by simp
        qed
      qed
    qed
  qed
qed

lemma pack_be32_nat:
  "pack_be32 (int idx) = (if idx < 2 ^ 32 then Inr (be32 (of_nat idx)) else Inl StructError)"
proof -
  have "(int idx < 2 ^ 32) = (idx < 2 ^ 32)"
    using of_nat_less_iff [of idx "2 ^ 32", where 'a=int] by simp
  then show ?thesis by (simp add: pack_be32_def)
qed

lemma records_Cons:
  "records (line # ls) =
     (if length (split_comma (rstrip_nl line)) = NUM_FEATS + 1
      then split_comma (rstrip_nl line) # records ls else records ls)"
  by (simp add: records_def well_formed_def)

lemma records_Nil: "records [] = []"
  by (simp add: records_def)

lemma length_records: "length (records lines) = length (filter well_formed lines)"
  by (simp add: records_def)

lemma write_one_by_one_Inr:
  "write_one_by_one L fm d lines idx st = Inr st' \<Longrightarrow>
   \<exists>arrs. map (encode_record L fm d) (records lines) = map Inr arrs
     \<and> (arrs = [] \<or> idx + length arrs \<le> 2 ^ 32)
     \<and> st' = fold put (entries_from idx arrs) st"
proof (induction lines arbitrary: idx st)
  case Nil
  then show ?case by (simp add: records_Nil)
next
  case (Cons line ls)
  show ?case
  proof (cases "length (split_comma (rstrip_nl line)) = NUM_FEATS + 1")
    case False
    then have "write_one_by_one L fm d ls idx st = Inr st'"
      using Cons.prems by simp
    from Cons.IH [OF this] show ?thesis
      using False by (simp add: records_Cons)
  next
    case wf: True
    obtain a where enc: "encode_record L fm d (split_comma (rstrip_nl line)) = Inr a"
      using Cons.prems wf by (cases "encode_record L fm d (split_comma (rstrip_nl line))") simp_all
    have lt: "idx < 2 ^ 32"
      using Cons.prems wf enc by (simp add: pack_be32_nat split: if_splits)
    have rest: "write_one_by_one L fm d ls (Suc idx) (put (be32 (of_nat idx), tobytes a) st) = Inr st'"
      using Cons.prems wf enc lt by (simp add: pack_be32_nat)
    from Cons.IH [OF rest] obtain arrs where
      m: "map (encode_record L fm d) (records ls) = map Inr arrs"
      and b: "arrs = [] \<or> Suc idx + length arrs \<le> 2 ^ 32"
      and s: "st' = fold put (entries_from (Suc idx) arrs) (put (be32 (of_nat idx), tobytes a) st)"
      by blast
    have b': "idx + length (a # arrs) \<le> 2 ^ 32"
      using b lt by auto
    show ?thesis
      apply (rule exI [of _ "a # arrs"])
      using m s b' wf enc by (simp add: records_Cons)
  qed
qed

lemma length_entries_from: "length (entries_from idx arrs) = length arrs"
  by (induction arrs arbitrary: idx) simp_all

lemma fst_entries_from:
  "fst ` set (entries_from idx arrs) = (\<lambda>k. be32 (of_nat k)) ` {idx..<idx + length arrs}"
proof (induction arrs arbitrary: idx)
  case Nil
  then show ?case by simp
next
  case (Cons a arrs)
  have "{idx..<idx + length (a # arrs)} = insert idx {Suc idx..<Suc idx + length arrs}"
    by auto
  then show ?case using Cons.IH [of "Suc idx"] by simp
qed

lemma of_nat_inj_32:
  "i < 2 ^ 32 \<Longrightarrow> j < 2 ^ 32 \<Longrightarrow> (of_nat i :: 32 word) = of_nat j \<Longrightarrow> i = j"
proof -
  assume i: "i < 2 ^ 32" and j: "j < 2 ^ 32" and e: "(of_nat i :: 32 word) = of_nat j"
  have "unat (of_nat i :: 32 word) = unat (of_nat j :: 32 word)" using e by simp
  then show "i = j" using i j by (simp add: unat_of_nat)
qed

lemma be32_key_inj:
  "i < 2 ^ 32 \<Longrightarrow> j < 2 ^ 32 \<Longrightarrow> be32 (of_nat i) = be32 (of_nat j) \<Longrightarrow> i = j"
  using be32_inj of_nat_inj_32 by blast

lemma distinct_entries_from:
  "idx + length arrs \<le> 2 ^ 32 \<Longrightarrow> distinct (map fst (entries_from idx arrs))"
proof (induction arrs arbitrary: idx)
  case Nil
  then show ?case by simp
next
  case (Cons a arrs)
  have "be32 (of_nat idx) \<notin> fst ` set (entries_from (Suc idx) arrs)"
  proof
    assume "be32 (of_nat idx) \<in> fst ` set (entries_from (Suc idx) arrs)"
    then obtain k where k: "k \<in> {Suc idx..<Suc idx + length arrs}"
      and e: "be32 (of_nat idx) = be32 (of_nat k)"
      unfolding fst_entries_from by blast
    have "idx = k"
      using be32_key_inj [OF _ _ e] k Cons.prems by simp
    then show False using k by simp
  qed
  moreover have "distinct (map fst (entries_from (Suc idx) arrs))"
    using Cons.prems by (intro Cons.IH) simp
  ultimately show ?case by simp
qed

lemma map_of_entries_from:
  "idx + length arrs \<le> 2 ^ 32 \<Longrightarrow> k < 2 ^ 32 \<Longrightarrow>
   map_of (entries_from idx arrs) (be32 (of_nat k)) =
     (if idx \<le> k \<and> k < idx + length arrs then Some (tobytes (arrs ! (k - idx))) else None)"
proof (induction arrs arbitrary: idx)
  case Nil
  then show ?case by simp
next
  case (Cons a arrs)
  have idx: "idx < 2 ^ 32" using Cons.prems by simp
  have ih: "map_of (entries_from (Suc idx) arrs) (be32 (of_nat k)) =
     (if Suc idx \<le> k \<and> k < Suc idx + length arrs then Some (tobytes (arrs ! (k - Suc idx))) else None)"
    using Cons.prems by (intro Cons.IH) simp_all
  show ?case
  proof (cases "k = idx")
    case True
    then show ?thesis by simp
  next
    case False
    then have ne: "be32 (of_nat idx) \<noteq> be32 (of_nat k)"
      using be32_key_inj [OF idx Cons.prems(2)] by blast
    have "k - idx = Suc (k - Suc idx)" if "Suc idx \<le> k"
      using that by simp
    then show ?thesis using False ne ih by auto
  qed
qed

lemma key_notin_entries: "field_dims_key \<notin> fst ` set (entries_from idx arrs)"
  unfolding fst_entries_from using be32_neq_key by (metis imageE)

section \<open>What a successful build stores\<close>


lemma length_set_int_feats:
  "set_int_feats L fm d values is a = Inr a' \<Longrightarrow> length a' = length a"
  by (induction "is" arbitrary: a) (auto split: sum.splits)

lemma length_set_cat_feats:
  "set_cat_feats fm d values is a = Inr a' \<Longrightarrow> length a' = length a"
  by (induction "is" arbitrary: a) (auto split: sum.splits)

lemma length_encode_record:
  "encode_record L fm d values = Inr a \<Longrightarrow> length a = NUM_FEATS + 1"
  by (auto simp: encode_record_def split: sum.splits
        dest!: length_set_int_feats length_set_cat_feats)

lemma encode_all_lengths:
  "map (encode_record L fm d) recs = map Inr arrs \<Longrightarrow> a \<in> set arrs \<Longrightarrow> length a = NUM_FEATS + 1"
proof (induction recs arbitrary: arrs)
  case Nil
  then show ?case by simp
next
  case (Cons r recs)
  then show ?case
    by (cases arrs) (auto dest: length_encode_record)
qed

lemma build_cache_Inr:
  assumes "build_cache L thr prefix fs path given = Inr st"
  shows "\<exists>fm d fd content arrs.
     (case given of
        None \<Rightarrow> get_feat_mapper L thr fs (''data/'' @ prefix @ ''train_df_GDCN.csv'')
      | Some p \<Rightarrow> Inr p) = Inr (fm, d)
     \<and> set_field_dims fm (replicate NUM_FEATS 0) = Inr fd
     \<and> fs criteo_train_csv = Some content
     \<and> map (encode_record L fm d) (records (data_lines content)) = map Inr arrs
     \<and> length arrs \<le> 2 ^ 32
     \<and> st = (field_dims_key, tobytes fd) # entries_from 0 arrs"
proof -
  let ?v = "case given of
        None \<Rightarrow> get_feat_mapper L thr fs (''data/'' @ prefix @ ''train_df_GDCN.csv'')
      | Some p \<Rightarrow> Inr p"
  define v where "v = ?v"
  have bc: "build_cache L thr prefix fs path given =
     (case v of
        Inl e \<Rightarrow> Inl e
      | Inr (fm, d) \<Rightarrow>
          (case set_field_dims fm (replicate NUM_FEATS 0) of
             Inl e \<Rightarrow> Inl e
           | Inr fdims \<Rightarrow>
               (case yield_buffer L fs path fm d 100000 of
                  Inl e \<Rightarrow> Inl e
                | Inr buffers \<Rightarrow>
                    Inr (write_buffers buffers (put (field_dims_key, tobytes fdims) [])))))"
    unfolding build_cache_def Let_def v_def by (rule refl)
  obtain fm d where v: "v = Inr (fm, d)"
    using assms unfolding bc by (cases v) auto
  obtain fd where fd: "set_field_dims fm (replicate NUM_FEATS 0) = Inr fd"
    using assms v unfolding bc
    by (cases "set_field_dims fm (replicate NUM_FEATS 0)") auto
  let ?st0 = "[(field_dims_key, tobytes fd)]"
  have p0: "put (field_dims_key, tobytes fd) [] = ?st0"
    by (simp add: put_def)
  obtain buffers where yb: "yield_buffer L fs path fm d 100000 = Inr buffers"
    and st: "st = write_buffers buffers ?st0"
    using assms v fd p0 unfolding bc
    by (cases "yield_buffer L fs path fm d 100000") auto
  obtain content where c: "fs criteo_train_csv = Some content"
    using yb by (cases "fs criteo_train_csv")
      (auto simp: yield_buffer_def read_lines_def criteo_train_csv_def Let_def)
  have yl: "yield_lines L 100000 fm d (data_lines content) 0 [] = Inr buffers"
    using yb c by (simp add: yield_buffer_def read_lines_def criteo_train_csv_def data_lines_def)
  have "write_one_by_one L fm d (data_lines content) 0 (fold put [] ?st0) = Inr st"
    using yield_lines_one_by_one [where bs=100000 and L=L and fm=fm and d=d and lines="data_lines content" and idx=0 and buf="[]" and st="?st0"] yl st
    by simp
  then have "write_one_by_one L fm d (data_lines content) 0 ?st0 = Inr st"
    by simp
  from write_one_by_one_Inr [OF this] obtain arrs where
    m: "map (encode_record L fm d) (records (data_lines content)) = map Inr arrs"
    and b: "arrs = [] \<or> 0 + length arrs \<le> 2 ^ 32"
    and s: "st = fold put (entries_from 0 arrs) ?st0"
    by blast
  have b': "length arrs \<le> 2 ^ 32" using b by auto
  have "fold put (entries_from 0 arrs) ?st0 = ?st0 @ entries_from 0 arrs"
    using distinct_entries_from [of 0 arrs] b' key_notin_entries [of 0 arrs]
    by (intro fold_put_fresh) auto
  then have "st = (field_dims_key, tobytes fd) # entries_from 0 arrs"
    using s by simp
  then show ?thesis using v fd c m b' unfolding v_def by blast
qed

section \<open>The record encoder\<close>


lemma to_uint32_Inr: "to_uint32 n = Inr w \<Longrightarrow> uint w = n"
proof -
  assume h: "to_uint32 n = Inr w"
  then have r: "0 \<le> n" "n < 2 ^ 32" and w: "w = word_of_int n"
    by (auto simp: to_uint32_def split: if_splits)
  have "uint (word_of_int n :: 32 word) = n mod 2 ^ 32"
    by (simp add: uint_word_of_int)
  then show ?thesis using r w by simp
qed






lemma open_cache_built:
  "open_cache ((field_dims_key, tobytes fd) # es) =
     Inr \<lparr>env = (field_dims_key, tobytes fd) # es, len = int (length es), field_dims = fd\<rparr>"
  by (simp add: open_cache_def frombuffer_tobytes)

lemma getitem_built:
  assumes e: "env ds = (field_dims_key, tobytes fd) # entries_from 0 arrs"
    and b: "length arrs \<le> 2 ^ 32"
    and ne: "\<forall>a\<in>set arrs. a \<noteq> []"
  shows "getitem ds index =
     (if index < 0 \<or> 2 ^ 32 \<le> index then Inl StructError
      else if nat index < length arrs
        then Inr (map uint (tl (arrs ! nat index)), uint (hd (arrs ! nat index)))
        else Inl TypeError)"
proof (cases "index < 0 \<or> 2 ^ 32 \<le> index")
  case True
  then show ?thesis by (auto simp: getitem_def pack_be32_def)
next
  case False
  then have r: "0 \<le> index" "index < 2 ^ 32" by auto
  have k: "nat index < 2 ^ 32" using r by (simp add: nat_less_iff)
  have w: "(word_of_int index :: 32 word) = of_nat (nat index)"
    using r by simp
  have p: "pack_be32 index = Inr (be32 (of_nat (nat index)))"
    using r w by (simp add: pack_be32_def)
  have m: "map_of (env ds) (be32 (of_nat (nat index))) =
      (if nat index < length arrs then Some (tobytes (arrs ! nat index)) else None)"
    using map_of_entries_from [of 0 arrs "nat index"] b k be32_neq_key [of "of_nat (nat index)"]
    by (simp add: e)
  show ?thesis
  proof (cases "nat index < length arrs")
    case True
    then have "arrs ! nat index \<noteq> []" using ne by simp
    then obtain x xs where a: "arrs ! nat index = x # xs"
      by (cases "arrs ! nat index") auto
    show ?thesis
      using False True p m a by (simp add: getitem_def frombuffer_tobytes)
  next
    case F: False
    then show ?thesis using False p m by (simp add: getitem_def)
  qed
qed

section \<open>The sample file, evaluated\<close>


lemma sample_lines:
  "file_lines (universal_newlines sample_csv) =
     [sample_header @ [CHR 0x0A], sample_row @ [CHR 0x0A], sample_bad @ [CHR 0x0A]]"
  by (simp add: sample_csv_def sample_row_def sample_header_def sample_bad_def)

lemma sample_row_fields:
  "split_comma (rstrip_nl (sample_row @ [CHR 0x0A])) =
     [''1'', ''1'', [], [], [], [], [], [], [], [], [], [], [], [], ''a'', [], [], [], [], [],
      [], [], [], [], [], [], [], [], [], [], [], [], [], [], [], [], [], [], [], []]"
  by (simp add: sample_row_def rstrip_nl_def)

lemma bad_row_fields: "split_comma (rstrip_nl (sample_bad @ [CHR 0x0A])) = [''bad'', ''row'']"
  by (simp add: rstrip_nl_def sample_bad_def)

lemma sample_data_lines:
  "data_lines sample_csv = [sample_row @ [CHR 0x0A], sample_bad @ [CHR 0x0A]]"
  by (simp add: data_lines_def sample_lines)

lemma sample_records:
  "records (data_lines sample_csv) =
     [[''1'', ''1'', [], [], [], [], [], [], [], [], [], [], [], [], ''a'', [], [], [], [], [],
      [], [], [], [], [], [], [], [], [], [], [], [], [], [], [], [], [], [], [], []]]"
  by (simp add: sample_data_lines records_def well_formed_def sample_row_fields bad_row_fields
        NUM_FEATS_def)

lemma upt_int_feats: "[1..<NUM_INT_FEATS + 1] = [1, 2, 3, 4, 5, 6, 7, 8, 9, 10, 11, 12, 13]"
  by (simp add: NUM_INT_FEATS_def upt_rec [of _ "numeral _"] upt_rec [of 1])

lemma upt_cat_feats:
  "[NUM_INT_FEATS + 1..<NUM_FEATS + 1] =
     [14, 15, 16, 17, 18, 19, 20, 21, 22, 23, 24, 25, 26, 27, 28, 29, 30, 31, 32, 33, 34, 35,
      36, 37, 38, 39]"
  by (simp add: NUM_INT_FEATS_def NUM_FEATS_def upt_rec [of "numeral _" "numeral _"])

lemma sample_counts:
  "count_lines exact_lib (data_lines sample_csv) [] =
     Inr [(1, [(''-1.0'', 1)]), (2, [(''NULL'', 1)]), (3, [(''NULL'', 1)]), (4, [(''NULL'', 1)]),
          (5, [(''NULL'', 1)]), (6, [(''NULL'', 1)]), (7, [(''NULL'', 1)]), (8, [(''NULL'', 1)]),
          (9, [(''NULL'', 1)]), (10, [(''NULL'', 1)]), (11, [(''NULL'', 1)]),
          (12, [(''NULL'', 1)]), (13, [(''NULL'', 1)]),
          (14, [(''a'', 1)]), (15, [([], 1)]), (16, [([], 1)]), (17, [([], 1)]), (18, [([], 1)]),
          (19, [([], 1)]), (20, [([], 1)]), (21, [([], 1)]), (22, [([], 1)]), (23, [([], 1)]),
          (24, [([], 1)]), (25, [([], 1)]), (26, [([], 1)]), (27, [([], 1)]), (28, [([], 1)]),
          (29, [([], 1)]), (30, [([], 1)]), (31, [([], 1)]), (32, [([], 1)]), (33, [([], 1)]),
          (34, [([], 1)]), (35, [([], 1)]), (36, [([], 1)]), (37, [([], 1)]), (38, [([], 1)]),
          (39, [([], 1)])]"
  apply (simp only: sample_data_lines count_lines.simps sample_row_fields bad_row_fields Let_def
      upt_int_feats upt_cat_feats)
  apply (simp add: cnf_int1 cnf_empty incr_count_def NUM_FEATS_def)
  done

lemma get_feat_mapper_eval:
  assumes "fs path = Some content" and "count_lines L (data_lines content) [] = Inr cnts"
  shows "get_feat_mapper L thr fs path =
     Inr (map (\<lambda>(i, cnt). (i, enumerate_dict (kept_tokens L thr cnt))) cnts,
          map (\<lambda>(i, cnt). (i, length (enumerate_dict (kept_tokens L thr cnt)))) cnts)"
  using assms
  by (simp add: get_feat_mapper_def read_lines_def data_lines_def Let_def case_prod_unfold
        comp_def)

lemma sample_files_csv: "sample_files criteo_train_csv = Some sample_csv"
  by (simp add: sample_files_def)

lemma sample_get_feat_mapper:
  "get_feat_mapper exact_lib 1 sample_files criteo_train_csv =
     Inr (sample_feat_mapper, sample_defaults)"
  unfolding get_feat_mapper_eval [of sample_files criteo_train_csv sample_csv exact_lib, OF sample_files_csv sample_counts]
  by (simp add: kept_tokens_def enumerate_dict_def dict_of_def exact_lib_def
        sample_feat_mapper_def sample_defaults_def)

lemma sample_encode:
  "encode_record exact_lib sample_feat_mapper sample_defaults
     [''1'', ''1'', [], [], [], [], [], [], [], [], [], [], [], [], ''a'', [], [], [], [], [],
      [], [], [], [], [], [], [], [], [], [], [], [], [], [], [], [], [], [], [], []]
   = Inr sample_array"
  unfolding encode_record_def
  apply (simp only: upt_int_feats upt_cat_feats)
  apply (simp add: py_int_def parse_defs to_uint32_def encode_code_def dict_item_def
      cnf_int1 cnf_empty sample_feat_mapper_def sample_defaults_def sample_array_def
      NUM_FEATS_def numeral_eq_Suc)
  done

lemma sample_field_dims:
  "set_field_dims sample_feat_mapper (replicate NUM_FEATS 0) = Inr (replicate 39 2)"
  by (simp add: sample_feat_mapper_def NUM_FEATS_def np_index_def to_uint32_def numeral_eq_Suc)

lemma sample_yield_buffer:
  "yield_buffer exact_lib sample_files path sample_feat_mapper sample_defaults 100000 =
     Inr [[(be32 0, tobytes sample_array)]]"
proof -
  have r: "read_lines sample_files ''data/criteo/train_df_GDCN.csv'' =
      Inr (file_lines (universal_newlines sample_csv))"
    using sample_files_csv by (simp add: read_lines_def criteo_train_csv_def)
  have y: "yield_lines exact_lib 100000 sample_feat_mapper sample_defaults
      (data_lines sample_csv) 0 [] = Inr [[(be32 0, tobytes sample_array)]]"
    unfolding sample_data_lines
    by (simp add: sample_row_fields bad_row_fields sample_encode pack_be32_def NUM_FEATS_def)
  show ?thesis
    unfolding yield_buffer_def Let_def r
    using y by (simp add: data_lines_def)
qed

lemma sample_temp_path: "''data/'' @ ''criteo/'' @ ''train_df_GDCN.csv'' = criteo_train_csv"
  by (simp add: criteo_train_csv_def)

lemma sample_build_cache:
  "build_cache exact_lib 1 ''criteo/'' sample_files path None = Inr sample_store"
  unfolding build_cache_def Let_def sample_temp_path
  by (simp add: sample_get_feat_mapper sample_field_dims sample_yield_buffer write_buffers_def
        put_def sample_store_def be32_neq_key be32_neq_key [symmetric])

lemma sample_open_cache:
  "open_cache sample_store = Inr \<lparr>env = sample_store, len = 1, field_dims = replicate 39 2\<rparr>"
  by (simp add: sample_store_def open_cache_def frombuffer_tobytes)

section \<open>The reader after a build\<close>


lemma built_store:
  assumes "build_cache L thr prefix fs path given = Inr st"
    and "fs criteo_train_csv = Some content"
  obtains fm d fd arrs where
    "(case given of
        None \<Rightarrow> get_feat_mapper L thr fs (''data/'' @ prefix @ ''train_df_GDCN.csv'')
      | Some p \<Rightarrow> Inr p) = Inr (fm, d)"
    "set_field_dims fm (replicate NUM_FEATS 0) = Inr fd"
    "map (encode_record L fm d) (records (data_lines content)) = map Inr arrs"
    "length arrs = length (filter well_formed (data_lines content))"
    "length arrs \<le> 2 ^ 32"
    "\<forall>a\<in>set arrs. length a = NUM_FEATS + 1"
    "st = (field_dims_key, tobytes fd) # entries_from 0 arrs"
proof -
  from build_cache_Inr [OF assms(1)] obtain fm d fd content' arrs where
    v: "(case given of
        None \<Rightarrow> get_feat_mapper L thr fs (''data/'' @ prefix @ ''train_df_GDCN.csv'')
      | Some p \<Rightarrow> Inr p) = Inr (fm, d)"
    and fd: "set_field_dims fm (replicate NUM_FEATS 0) = Inr fd"
    and c: "fs criteo_train_csv = Some content'"
    and m: "map (encode_record L fm d) (records (data_lines content')) = map Inr arrs"
    and b: "length arrs \<le> 2 ^ 32"
    and s: "st = (field_dims_key, tobytes fd) # entries_from 0 arrs"
    by blast
  have cc: "content' = content" using c assms(2) by simp
  have l: "length arrs = length (filter well_formed (data_lines content))"
    using arg_cong [OF m, of length] by (simp add: cc length_records)
  have a: "\<forall>a\<in>set arrs. length a = NUM_FEATS + 1"
    using encode_all_lengths [OF m] by blast
  show ?thesis
    using that [OF v fd m [unfolded cc] l b a s] .
qed

text \<open>
  Claim C2: after a build, the reader's length (the number of store entries minus one) is
  the number of data lines of the source file that split on commas into exactly
  \<open>NUM_FEATS + 1 = 40\<close> fields; the header line and the malformed lines are not counted.
  The source file is the file the build reads.
\<close>

theorem C2_length_counts_well_formed_lines:
  assumes "build_cache L min_threshold prefix fs path given = Inr st"
    and "fs criteo_train_csv = Some content"
  shows "\<exists>ds. open_cache st = Inr ds
     \<and> len ds = int (length st) - 1
     \<and> len ds = int (length (filter well_formed (data_lines content)))"
proof -
  from built_store [OF assms] obtain fd arrs where
    l: "length arrs = length (filter well_formed (data_lines content))"
    and s: "st = (field_dims_key, tobytes fd) # entries_from 0 arrs"
    by metis
  show ?thesis
    unfolding s open_cache_built using l by (simp add: length_entries_from)
qed

theorem C2_length_counts_well_formed_lines_witness:
  "build_cache exact_lib 1 ''criteo/'' sample_files ''train.txt'' None = Inr sample_store
   \<and> sample_files criteo_train_csv = Some sample_csv
   \<and> length (filter well_formed (data_lines sample_csv)) = 1
   \<and> (\<exists>ds. open_cache sample_store = Inr ds \<and> len ds = int (length sample_store) - 1
         \<and> len ds = 1)"
proof -
  have n: "length (filter well_formed (data_lines sample_csv)) = 1"
    using length_records [of "data_lines sample_csv"] by (simp add: sample_records)
  show ?thesis
    using C2_length_counts_well_formed_lines
        [OF sample_build_cache [of "''train.txt''"] sample_files_csv] n
    by (simp add: sample_build_cache sample_files_csv)
qed

text \<open>
  Claim C8: for a built cache, \<open>getitem\<close> returns a record exactly when
  \<open>0 \<le> index < length()\<close>; at \<open>index = length()\<close> and at every negative index it
  raises (\<^verbatim>\<open>struct.error\<close> for an index that does not fit the key,
  \<^verbatim>\<open>TypeError\<close> from \<^verbatim>\<open>np.frombuffer(None)\<close> for a key that is not in the
  store) and returns no data.
\<close>

theorem C8_getitem_bounds:
  assumes "build_cache L min_threshold prefix fs path given = Inr st"
    and "open_cache st = Inr ds"
  shows "((\<exists>r. getitem ds index = Inr r) = (0 \<le> index \<and> index < len ds))
     \<and> (\<exists>e. getitem ds (len ds) = Inl e)
     \<and> (index < 0 \<longrightarrow> getitem ds index = Inl StructError)"
proof -
  obtain content where c: "fs criteo_train_csv = Some content"
    using build_cache_Inr [OF assms(1)] by blast
  from built_store [OF assms(1) c] obtain fd arrs where
    b: "length arrs \<le> 2 ^ 32"
    and a: "\<forall>a\<in>set arrs. length a = NUM_FEATS + 1"
    and s: "st = (field_dims_key, tobytes fd) # entries_from 0 arrs"
    by metis
  have ds: "ds = \<lparr>env = st, len = int (length arrs), field_dims = fd\<rparr>"
    using assms(2) unfolding s open_cache_built by (simp add: length_entries_from)
  have e: "env ds = (field_dims_key, tobytes fd) # entries_from 0 arrs"
    using ds s by simp
  have l: "len ds = int (length arrs)" using ds by simp
  have ne: "\<forall>a\<in>set arrs. a \<noteq> []"
    using a by (auto simp: NUM_FEATS_def)
  have g: "getitem ds i =
     (if i < 0 \<or> 2 ^ 32 \<le> i then Inl StructError
      else if nat i < length arrs
        then Inr (map uint (tl (arrs ! nat i)), uint (hd (arrs ! nat i)))
        else Inl TypeError)" for i
    by (rule getitem_built [OF e b ne])
  have bi: "int (length arrs) \<le> 2 ^ 32"
    using b of_nat_mono [OF b, where 'a=int] by simp
  have 1: "(\<exists>r. getitem ds index = Inr r) = (0 \<le> index \<and> index < len ds)"
    unfolding g l using bi by (auto simp: nat_less_iff)
  have 2: "\<exists>e. getitem ds (len ds) = Inl e"
    unfolding g l by simp
  have 3: "index < 0 \<longrightarrow> getitem ds index = Inl StructError"
    unfolding g by simp
  show ?thesis using 1 2 3 by blast
qed

theorem C8_getitem_bounds_witness:
  "build_cache exact_lib 1 ''criteo/'' sample_files ''train.txt'' None = Inr sample_store
   \<and> (\<forall>index. (\<exists>r. getitem \<lparr>env = sample_store, len = 1, field_dims = replicate 39 2\<rparr> index = Inr r)
         = (index = 0))
   \<and> (\<exists>e. getitem \<lparr>env = sample_store, len = 1, field_dims = replicate 39 2\<rparr> 1 = Inl e)
   \<and> getitem \<lparr>env = sample_store, len = 1, field_dims = replicate 39 2\<rparr> (- 1) = Inl StructError"
proof -
  let ?ds = "\<lparr>env = sample_store, len = 1, field_dims = replicate 39 2\<rparr>"
  note t = C8_getitem_bounds [OF sample_build_cache [of "''train.txt''"] sample_open_cache]
  have "(\<exists>r. getitem ?ds index = Inr r) = (index = 0)" for index
    using t [of index] by auto
  moreover have "\<exists>e. getitem ?ds 1 = Inl e"
    using t [of 0] by simp
  moreover have "getitem ?ds (- 1) = Inl StructError"
    using t [of "- 1"] by simp
  ultimately show ?thesis
    using sample_build_cache by blast
qed




section \<open>Batched and unbatched writing\<close>


lemma yield_lines_last:
  "0 < bs \<Longrightarrow> length buf = idx mod bs \<Longrightarrow> yield_lines L bs fm d lines idx buf = Inr buffers \<Longrightarrow>
   buffers \<noteq> [] \<and> length (last buffers) = (idx + length (records lines)) mod bs"
proof (induction lines arbitrary: idx buf buffers)
  case Nil
  then show ?case by (auto simp: records_Nil)
next
  case (Cons line ls)
  show ?case
  proof (cases "length (split_comma (rstrip_nl line)) = NUM_FEATS + 1")
    case False
    then have "yield_lines L bs fm d ls idx buf = Inr buffers"
      using Cons.prems by simp
    from Cons.IH [OF Cons.prems(1,2) this] show ?thesis
      using False by (simp add: records_Cons)
  next
    case wf: True
    obtain a where enc: "encode_record L fm d (split_comma (rstrip_nl line)) = Inr a"
      using Cons.prems wf by (cases "encode_record L fm d (split_comma (rstrip_nl line))") simp_all
    obtain k where key: "pack_be32 (int idx) = Inr k"
      using Cons.prems wf enc by (cases "pack_be32 (int idx)") simp_all
    show ?thesis
    proof (cases "(idx + 1) mod bs = 0")
      case True
      obtain rest where r: "yield_lines L bs fm d ls (idx + 1) [] = Inr rest"
        and b: "buffers = (buf @ [(k, tobytes a)]) # rest"
        using Cons.prems wf enc key True
        by (cases "yield_lines L bs fm d ls (idx + 1) []") auto
      have "rest \<noteq> [] \<and> length (last rest) = (idx + 1 + length (records ls)) mod bs"
        using True by (intro Cons.IH [OF Cons.prems(1) _ r]) simp
      then show ?thesis using b wf by (simp add: records_Cons)
    next
      case False
      have r: "yield_lines L bs fm d ls (idx + 1) (buf @ [(k, tobytes a)]) = Inr buffers"
        using Cons.prems wf enc key False by simp
      have "idx mod bs + 1 < bs"
      proof -
        have "idx mod bs < bs" using Cons.prems(1) by simp
        moreover have "idx mod bs + 1 \<noteq> bs"
        proof
          assume "idx mod bs + 1 = bs"
          then have "(idx mod bs + 1) mod bs = 0" by simp
          then have "(idx + 1) mod bs = 0" by (simp add: mod_simps)
          then show False using False by simp
        qed
        ultimately show ?thesis by simp
      qed
      then have "(idx + 1) mod bs = idx mod bs + 1"
        by (metis mod_add_left_eq mod_less)
      then have l: "length (buf @ [(k, tobytes a)]) = (idx + 1) mod bs"
        using Cons.prems(2) by simp
      have "buffers \<noteq> [] \<and> length (last buffers) = (idx + 1 + length (records ls)) mod bs"
        by (rule Cons.IH [OF Cons.prems(1) l r])
      then show ?thesis using wf by (simp add: records_Cons)
    qed
  qed
qed

text \<open>
  Claim C9: batched writing is equivalent to unbatched writing. For every file system,
  vocabulary, starting store and \<open>buffer_size \<ge> 1\<close>, writing the buffers the generator
  yields gives the store that writing each encoded record at once gives, and raises the
  same exception when a line cannot be encoded. The generator always yields a last buffer,
  which is empty when the number of records is a multiple of the buffer size.
\<close>

theorem C9_batched_equals_one_by_one:
  assumes "1 \<le> buffer_size"
  shows "(case yield_buffer L fs path feat_mapper defaults buffer_size of
            Inl e \<Rightarrow> Inl e
          | Inr buffers \<Rightarrow> Inr (write_buffers buffers st))
         = (case read_lines fs criteo_train_csv of
              Inl e \<Rightarrow> Inl e
            | Inr lines \<Rightarrow> write_one_by_one L feat_mapper defaults (drop 1 lines) 0 st)
     \<and> (\<forall>buffers content.
           yield_buffer L fs path feat_mapper defaults buffer_size = Inr buffers
           \<and> fs criteo_train_csv = Some content \<longrightarrow>
           buffers \<noteq> [] \<and>
           length (last buffers) = length (records (data_lines content)) mod buffer_size)"
proof -
  have bs: "0 < buffer_size" using assms by simp
  have 1: "(case yield_buffer L fs path feat_mapper defaults buffer_size of
            Inl e \<Rightarrow> Inl e
          | Inr buffers \<Rightarrow> Inr (write_buffers buffers st))
         = (case read_lines fs criteo_train_csv of
              Inl e \<Rightarrow> Inl e
            | Inr lines \<Rightarrow> write_one_by_one L feat_mapper defaults (drop 1 lines) 0 st)"
  proof (cases "read_lines fs criteo_train_csv")
    case (Inl e)
    then show ?thesis by (simp add: yield_buffer_def criteo_train_csv_def)
  next
    case (Inr lines)
    have "(case yield_lines L buffer_size feat_mapper defaults (drop 1 lines) 0 [] of
            Inl e \<Rightarrow> Inl e
          | Inr buffers \<Rightarrow> Inr (write_buffers buffers st))
         = write_one_by_one L feat_mapper defaults (drop 1 lines) 0 (fold put [] st)"
      by (rule yield_lines_one_by_one [OF bs])
    then show ?thesis
      using Inr by (simp add: yield_buffer_def criteo_train_csv_def)
  qed
  have 2: "buffers \<noteq> [] \<and>
         length (last buffers) = length (records (data_lines content)) mod buffer_size"
    if y: "yield_buffer L fs path feat_mapper defaults buffer_size = Inr buffers"
      and c: "fs criteo_train_csv = Some content" for buffers content
  proof -
    have "yield_lines L buffer_size feat_mapper defaults (data_lines content) 0 [] = Inr buffers"
      using y c by (simp add: yield_buffer_def read_lines_def criteo_train_csv_def data_lines_def)
    from yield_lines_last [OF bs _ this] show ?thesis by simp
  qed
  show ?thesis using 1 2 by blast
qed

lemma sample_yield_buffer_1:
  "yield_buffer exact_lib sample_files path sample_feat_mapper sample_defaults 1 =
     Inr [[(be32 0, tobytes sample_array)], []]"
proof -
  have r: "read_lines sample_files ''data/criteo/train_df_GDCN.csv'' =
      Inr (file_lines (universal_newlines sample_csv))"
    using sample_files_csv by (simp add: read_lines_def criteo_train_csv_def)
  have y: "yield_lines exact_lib 1 sample_feat_mapper sample_defaults
      (data_lines sample_csv) 0 [] = Inr [[(be32 0, tobytes sample_array)], []]"
    unfolding sample_data_lines
    by (simp add: sample_row_fields bad_row_fields sample_encode pack_be32_def NUM_FEATS_def)
  show ?thesis
    unfolding yield_buffer_def Let_def r
    using y by (simp add: data_lines_def)
qed

theorem C9_batched_equals_one_by_one_witness:
  "(1::nat) \<le> 1
   \<and> yield_buffer exact_lib sample_files ''train.txt'' sample_feat_mapper sample_defaults 1
       = Inr [[(be32 0, tobytes sample_array)], []]
   \<and> (case read_lines sample_files criteo_train_csv of
         Inl e \<Rightarrow> Inl e
       | Inr lines \<Rightarrow>
           write_one_by_one exact_lib sample_feat_mapper sample_defaults (drop 1 lines) 0 [])
       = Inr [(be32 0, tobytes sample_array)]
   \<and> length (records (data_lines sample_csv)) mod 1 = 0"
proof -
  have a: "(1::nat) \<le> 1" by simp
  note e = C9_batched_equals_one_by_one [where buffer_size = 1 and L = exact_lib
        and fs = sample_files and path = "''train.txt''" and feat_mapper = sample_feat_mapper
        and defaults = sample_defaults and st = "[]", OF a, THEN conjunct1,
        unfolded sample_yield_buffer_1]
  have y: "yield_buffer exact_lib sample_files ''train.txt'' sample_feat_mapper sample_defaults 1
       = Inr [[(be32 0, tobytes sample_array)], []]"
    by (rule sample_yield_buffer_1)
  have w: "(case read_lines sample_files criteo_train_csv of
         Inl e \<Rightarrow> Inl e
       | Inr lines \<Rightarrow>
           write_one_by_one exact_lib sample_feat_mapper sample_defaults (drop 1 lines) 0 [])
       = Inr [(be32 0, tobytes sample_array)]"
    using e by (simp add: write_buffers_def put_def)
  show ?thesis
    by (intro conjI a y w) simp
qed

section \<open>A file without records\<close>


lemma count_lines_no_records:
  "filter well_formed lines = [] \<Longrightarrow> count_lines L lines cnts = Inr cnts"
  by (induction lines) (auto simp: well_formed_def split: if_splits)

lemma yield_lines_no_records:
  "filter well_formed lines = [] \<Longrightarrow> yield_lines L bs fm d lines idx buf = Inr [buf]"
  by (induction lines) (auto simp: well_formed_def split: if_splits)

lemma no_records_build:
  assumes "fs criteo_train_csv = Some content"
    and "filter well_formed (data_lines content) = []"
  shows "get_feat_mapper L min_threshold fs criteo_train_csv = Inr ([], [])
     \<and> build_cache L min_threshold ''criteo/'' fs path None
          = Inr [(field_dims_key, tobytes (replicate NUM_FEATS 0))]
     \<and> open_cache [(field_dims_key, tobytes (replicate NUM_FEATS 0))]
          = Inr \<lparr>env = [(field_dims_key, tobytes (replicate NUM_FEATS 0))], len = 0,
                 field_dims = replicate NUM_FEATS 0\<rparr>"
proof -
  have c: "count_lines L (data_lines content) [] = Inr []"
    by (rule count_lines_no_records [OF assms(2)])
  have g: "get_feat_mapper L min_threshold fs criteo_train_csv = Inr ([], [])"
    using get_feat_mapper_eval [where fs = fs and path = criteo_train_csv and content = content
        and L = L and cnts = "[]" and thr = min_threshold, OF assms(1) c] by simp
  have r: "read_lines fs ''data/criteo/train_df_GDCN.csv'' =
      Inr (file_lines (universal_newlines content))"
    using assms(1) by (simp add: read_lines_def criteo_train_csv_def)
  have y: "yield_buffer L fs path [] [] 100000 = Inr [[]]"
    unfolding yield_buffer_def Let_def r
    using yield_lines_no_records [OF assms(2)] by (simp add: data_lines_def)
  have t: "''data/'' @ ''criteo/'' @ ''train_df_GDCN.csv'' = criteo_train_csv"
    by (simp add: criteo_train_csv_def)
  have b: "build_cache L min_threshold ''criteo/'' fs path None
          = Inr [(field_dims_key, tobytes (replicate NUM_FEATS 0))]"
    unfolding build_cache_def Let_def t
    by (simp add: g y write_buffers_def put_def)
  show ?thesis
    using g b open_cache_built [of "replicate NUM_FEATS 0" "[]"] by simp
qed

text \<open>
  Claim C10: a build from a source file with no well-formed data line (a file with only a
  header is one) succeeds; the vocabulary map is empty, the store holds the metadata entry
  alone, the reader's length is 0 and every element of its \<open>field_dims\<close> is 0.
\<close>

theorem C10_header_only_build:
  assumes "fs criteo_train_csv = Some content"
    and "filter well_formed (data_lines content) = []"
  shows "get_feat_mapper L min_threshold fs criteo_train_csv = Inr ([], [])
     \<and> build_cache L min_threshold ''criteo/'' fs path None
          = Inr [(field_dims_key, tobytes (replicate NUM_FEATS 0))]
     \<and> open_cache [(field_dims_key, tobytes (replicate NUM_FEATS 0))]
          = Inr \<lparr>env = [(field_dims_key, tobytes (replicate NUM_FEATS 0))], len = 0,
                 field_dims = replicate NUM_FEATS 0\<rparr>"
  using no_records_build [where fs = fs and content = content, OF assms] .

lemma header_only_csv: "header_only_files criteo_train_csv = Some sample_header"
  by (simp add: header_only_files_def)

lemma header_only_no_records: "filter well_formed (data_lines sample_header) = []"
  by (simp add: data_lines_def sample_header_def)

theorem C10_header_only_build_witness:
  "header_only_files criteo_train_csv = Some sample_header
   \<and> filter well_formed (data_lines sample_header) = []
   \<and> get_feat_mapper exact_lib 10 header_only_files criteo_train_csv = Inr ([], [])
   \<and> build_cache exact_lib 10 ''criteo/'' header_only_files ''train.txt'' None
        = Inr [(field_dims_key, tobytes (replicate NUM_FEATS 0))]
   \<and> open_cache [(field_dims_key, tobytes (replicate NUM_FEATS 0))]
        = Inr \<lparr>env = [(field_dims_key, tobytes (replicate NUM_FEATS 0))], len = 0,
               field_dims = replicate NUM_FEATS 0\<rparr>"
  using C10_header_only_build [where fs = header_only_files and content = sample_header
      and L = exact_lib and min_threshold = 10 and path = "''train.txt''",
      OF header_only_csv header_only_no_records]
    header_only_csv header_only_no_records
  by simp

section \<open>The path the build reads\<close>


lemma yield_buffer_ignores_path:
  "yield_buffer L fs path fm d bs = yield_buffer L fs path' fm d bs"
  by (simp add: yield_buffer_def)

lemma build_cache_ignores_path:
  "build_cache L thr prefix fs path given = build_cache L thr prefix fs path' given"
  unfolding build_cache_def Let_def yield_buffer_ignores_path [of L fs path _ _ _ path'] ..

lemma test_files_test: "test_files test_csv_path = Some sample_csv"
  by (simp add: test_files_def)

lemma test_files_train: "test_files criteo_train_csv = Some sample_header"
  by (simp add: test_files_def test_csv_path_def criteo_train_csv_def)

text \<open>
  Claim C3: the cache-writing pass reads and encodes the lines of the dataset path its
  caller passes. The code does not: \<^verbatim>\<open>__yield_buffer\<close> assigns a literal to
  \<^verbatim>\<open>path\<close> before opening the file. Building the test cache from a file with one
  well-formed data line, while the file at the literal path has only a header, stores the
  metadata entry and no record.
\<close>

theorem C3_build_reads_literal_path:
  "test_files test_csv_path = Some sample_csv
   \<and> length (records (data_lines sample_csv)) = 1
   \<and> build_cache exact_lib 10 ''criteoTest/'' test_files test_csv_path
        (Some (sample_feat_mapper, sample_defaults))
       = Inr [(field_dims_key, tobytes (replicate 39 2))]
   \<and> open_cache [(field_dims_key, tobytes (replicate 39 2))]
       = Inr \<lparr>env = [(field_dims_key, tobytes (replicate 39 2))], len = 0,
              field_dims = replicate 39 2\<rparr>"
proof -
  have r: "read_lines test_files ''data/criteo/train_df_GDCN.csv'' =
      Inr (file_lines (universal_newlines sample_header))"
    using test_files_train by (simp add: read_lines_def criteo_train_csv_def)
  have y: "yield_buffer exact_lib test_files test_csv_path sample_feat_mapper sample_defaults
      100000 = Inr [[]]"
    unfolding yield_buffer_def Let_def r
    using yield_lines_no_records [OF header_only_no_records] by (simp add: data_lines_def)
  have b: "build_cache exact_lib 10 ''criteoTest/'' test_files test_csv_path
        (Some (sample_feat_mapper, sample_defaults))
       = Inr [(field_dims_key, tobytes (replicate 39 2))]"
    unfolding build_cache_def Let_def
    by (simp add: sample_field_dims y write_buffers_def put_def)
  show ?thesis
    using test_files_test b open_cache_built [of "replicate 39 2" "[]"]
    by (simp add: sample_records)
qed

section \<open>The counting pass\<close>


lemma map_of_incr_count:
  "map_of (incr_count i t cnts) =
     (map_of cnts)(i \<mapsto> AList.update t
        (count_of cnts i t + 1) (case map_of cnts i of None \<Rightarrow> [] | Some d \<Rightarrow> d))"
  by (simp add: incr_count_def Let_def update_conv' count_of_def split: option.splits)


lemma keys_incr_count: "fst ` set (incr_count i t cnts) = insert i (fst ` set cnts)"
  by (simp add: incr_count_def Let_def dom_update)

lemma inner_ok_update: "inner_ok d \<Longrightarrow> 0 < c \<Longrightarrow> inner_ok (AList.update t c d)"
  by (auto simp: inner_ok_def distinct_update update_conv' split: if_splits)

lemma inner_ok_Nil: "inner_ok []"
  by (simp add: inner_ok_def)

lemma counts_ok_incr_count: "counts_ok cnts \<Longrightarrow> counts_ok (incr_count i t cnts)"
proof -
  assume ok: "counts_ok cnts"
  have d: "distinct (map fst (incr_count i t cnts))"
    using ok by (simp add: incr_count_def Let_def counts_ok_def distinct_update)
  have "inner_ok (case map_of cnts i of None \<Rightarrow> [] | Some d \<Rightarrow> d)"
    using ok by (auto simp: counts_ok_def inner_ok_Nil split: option.splits)
  then have n: "inner_ok (AList.update t (count_of cnts i t + 1)
      (case map_of cnts i of None \<Rightarrow> [] | Some d \<Rightarrow> d))"
    by (rule inner_ok_update) simp
  show ?thesis
    unfolding counts_ok_def map_of_incr_count
    using d n ok by (auto simp: counts_ok_def)
qed

lemma counts_ok_Nil: "counts_ok []"
  by (simp add: counts_ok_def)


lemma count_int_feats_shape:
  "count_int_feats L values is cnts = Inr cnts' \<Longrightarrow>
   (counts_ok cnts \<longrightarrow> counts_ok cnts') \<and> fst ` set cnts' = fst ` set cnts \<union> set is"
proof (induction "is" arbitrary: cnts)
  case Nil
  then show ?case by simp
next
  case (Cons i "is")
  obtain tok where t: "convert_numeric_feature L (values ! i) = Inr tok"
    and r: "count_int_feats L values is (incr_count i tok cnts) = Inr cnts'"
    using Cons.prems(1) by (cases "convert_numeric_feature L (values ! i)") simp_all
  show ?case
    using Cons.IH [OF r] counts_ok_incr_count [of cnts i tok]
    by (auto simp: keys_incr_count)
qed


lemma count_cat_feats_shape:
  "(counts_ok cnts \<longrightarrow> counts_ok (count_cat_feats values is cnts))
   \<and> fst ` set (count_cat_feats values is cnts) = fst ` set cnts \<union> set is"
proof (induction "is" arbitrary: cnts)
  case Nil
  then show ?case by simp
next
  case (Cons i "is")
  show ?case
    using Cons.IH [of "incr_count i (values ! i) cnts"]
      counts_ok_incr_count [of cnts i "values ! i"]
    by (auto simp: keys_incr_count)
qed



lemma int_le_feats: "NUM_INT_FEATS \<le> NUM_FEATS"
  by (simp add: NUM_INT_FEATS_def NUM_FEATS_def)

lemma field_range:
  "set [1..<NUM_INT_FEATS + 1] \<union> set [NUM_INT_FEATS + 1..<NUM_FEATS + 1] = {1..NUM_FEATS}"
  using int_le_feats by auto





lemma count_lines_shape:
  "count_lines L lines cnts = Inr cnts' \<Longrightarrow>
   (counts_ok cnts \<longrightarrow> counts_ok cnts')
   \<and> fst ` set cnts' = fst ` set cnts \<union> (if records lines = [] then {} else {1..NUM_FEATS})"
proof (induction lines arbitrary: cnts)
  case Nil
  then show ?case by (simp add: records_Nil)
next
  case (Cons line ls)
  let ?v = "split_comma (rstrip_nl line)"
  show ?case
  proof (cases "length ?v = NUM_FEATS + 1")
    case False
    then have "count_lines L ls cnts = Inr cnts'" using Cons.prems by simp
    from Cons.IH [OF this] show ?thesis using False by (simp add: records_Cons)
  next
    case wf: True
    obtain c1 where c1: "count_int_feats L ?v [1..<NUM_INT_FEATS + 1] cnts = Inr c1"
      using Cons.prems wf
      by (cases "count_int_feats L ?v [1..<NUM_INT_FEATS + 1] cnts") simp_all
    let ?c2 = "count_cat_feats ?v [NUM_INT_FEATS + 1..<NUM_FEATS + 1] c1"
    have r: "count_lines L ls ?c2 = Inr cnts'"
      using Cons.prems wf c1 by simp
    have s1: "(counts_ok cnts \<longrightarrow> counts_ok c1)
        \<and> fst ` set c1 = fst ` set cnts \<union> set [1..<NUM_INT_FEATS + 1]"
      by (rule count_int_feats_shape [OF c1])
    have s2: "(counts_ok c1 \<longrightarrow> counts_ok ?c2)
        \<and> fst ` set ?c2 = fst ` set c1 \<union> set [NUM_INT_FEATS + 1..<NUM_FEATS + 1]"
      by (rule count_cat_feats_shape)
    have k: "fst ` set ?c2 = fst ` set cnts \<union> {1..NUM_FEATS}"
      using s1 s2 field_range by blast
    have ok: "counts_ok cnts \<longrightarrow> counts_ok ?c2" using s1 s2 by blast
    have "(counts_ok ?c2 \<longrightarrow> counts_ok cnts')
        \<and> fst ` set cnts' = fst ` set ?c2 \<union> (if records ls = [] then {} else {1..NUM_FEATS})"
      by (rule Cons.IH [OF r])
    then show ?thesis
      using k ok wf by (auto simp: records_Cons)
  qed
qed

section \<open>The vocabulary\<close>






lemma get_feat_mapper_Inr:
  assumes "get_feat_mapper L thr fs path = Inr (fm, d)"
  obtains content cnts where "fs path = Some content"
    and "count_lines L (data_lines content) [] = Inr cnts"
    and "fm = map (\<lambda>(i, cnt). (i, enumerate_dict (kept_tokens L thr cnt))) cnts"
    and "d = map (\<lambda>(i, cnt). (i, length (enumerate_dict (kept_tokens L thr cnt)))) cnts"
proof -
  obtain content where c: "fs path = Some content"
    using assms by (cases "fs path") (auto simp: get_feat_mapper_def read_lines_def)
  obtain cnts where n: "count_lines L (data_lines content) [] = Inr cnts"
    using assms c
    by (cases "count_lines L (data_lines content) []")
       (auto simp: get_feat_mapper_def read_lines_def data_lines_def)
  show ?thesis
    using that [OF c n] assms
      get_feat_mapper_eval [where fs = fs and path = path and content = content and L = L
        and cnts = cnts and thr = thr, OF c n]
    by simp
qed







section \<open>The per-field cardinalities\<close>

lemma np_index_pos: "1 \<le> k \<Longrightarrow> k \<le> n \<Longrightarrow> np_index n (int k - 1) = Inr (k - 1)"
  by (auto simp: np_index_def nat_diff_distrib)

lemma set_field_dims_Inr:
  "set_field_dims fm fd = Inr fd' \<Longrightarrow> distinct (map fst fm) \<Longrightarrow>
   \<forall>k\<in>fst ` set fm. 1 \<le> k \<and> k \<le> length fd \<Longrightarrow>
   length fd' = length fd
   \<and> (\<forall>i<length fd. case map_of fm (i + 1) of
          None \<Rightarrow> fd' ! i = fd ! i
        | Some v \<Rightarrow> unat (fd' ! i) = length v + 1)"
proof (induction fm arbitrary: fd)
  case Nil
  then show ?case by simp
next
  case (Cons p rest)
  obtain k v where p: "p = (k, v)" by (cases p)
  have k: "1 \<le> k" "k \<le> length fd" using Cons.prems(3) p by auto
  have ix: "np_index (length fd) (int k - 1) = Inr (k - 1)"
    by (rule np_index_pos [OF k])
  obtain w where w: "to_uint32 (int (length v) + 1) = Inr w"
    and r: "set_field_dims rest (fd[k - 1 := w]) = Inr fd'"
    using Cons.prems(1) p ix by (cases "to_uint32 (int (length v) + 1)") simp_all
  have uw: "unat w = length v + 1"
    using to_uint32_Inr [OF w] by (simp add: unat_eq_nat_uint)
  have d: "distinct (map fst rest)" and kn: "k \<notin> fst ` set rest"
    using Cons.prems(2) p by auto
  have ks: "\<forall>j\<in>fst ` set rest. 1 \<le> j \<and> j \<le> length (fd[k - 1 := w])"
    using Cons.prems(3) by simp
  have ih: "length fd' = length (fd[k - 1 := w])
   \<and> (\<forall>i<length (fd[k - 1 := w]). case map_of rest (i + 1) of
          None \<Rightarrow> fd' ! i = (fd[k - 1 := w]) ! i
        | Some v \<Rightarrow> unat (fd' ! i) = length v + 1)"
    by (rule Cons.IH [OF r d ks])
  have nk: "map_of rest k = None"
    using kn by (simp add: map_of_eq_None_iff)
  have "case map_of (p # rest) (i + 1) of
          None \<Rightarrow> fd' ! i = fd ! i
        | Some v \<Rightarrow> unat (fd' ! i) = length v + 1" if i: "i < length fd" for i
  proof (cases "i + 1 = k")
    case True
    then have "fd' ! i = w"
      using ih i nk by (auto split: option.splits)
    then show ?thesis using True p uw by simp
  next
    case False
    then have "(fd[k - 1 := w]) ! i = fd ! i" using k by auto
    then show ?thesis
      using ih i False p by (auto split: option.splits)
  qed
  then show ?case using ih by simp
qed

lemma feat_mapper_keys:
  assumes "get_feat_mapper L thr fs path = Inr (fm, d)" and "fs path = Some content"
  shows "distinct (map fst fm)"
    and "fst ` set fm = (if records (data_lines content) = [] then {} else {1..NUM_FEATS})"
proof -
  from get_feat_mapper_Inr [OF assms(1)] obtain content' cnts where
    c': "fs path = Some content'"
    and n: "count_lines L (data_lines content') [] = Inr cnts"
    and fm: "fm = map (\<lambda>(i, cnt). (i, enumerate_dict (kept_tokens L thr cnt))) cnts"
    by blast
  have cc: "content' = content" using assms(2) c' by simp
  have sh: "(counts_ok [] \<longrightarrow> counts_ok cnts)
      \<and> fst ` set cnts = fst ` set [] \<union> (if records (data_lines content) = [] then {} else {1..NUM_FEATS})"
    using count_lines_shape [OF n] by (simp add: cc)
  have mf: "map fst fm = map fst cnts"
    unfolding fm by (simp add: case_prod_unfold comp_def)
  show "distinct (map fst fm)"
    using sh counts_ok_Nil by (simp add: mf counts_ok_def)
  have "fst ` set fm = set (map fst fm)" by simp
  also have "\<dots> = fst ` set cnts" unfolding mf by simp
  finally show "fst ` set fm = (if records (data_lines content) = [] then {} else {1..NUM_FEATS})"
    using sh by simp
qed

text \<open>
  Claim C4, as stated: for every build and every field index \<open>i\<close> in \<open>0..NUM_FEATS-1\<close>,
  \<open>field_dims()[i] = |Vocabulary[i+1]| + 1\<close>. A build from a file with only a header
  gives a vocabulary map without any entry and a \<open>field_dims\<close> of zeros, so the cardinality
  of field 1 is 0: not the 1 an empty vocabulary would give, and not a successor at all.
\<close>

theorem C4_field_dims_counterexample:
  "build_cache exact_lib 10 ''criteo/'' header_only_files ''train.txt'' None
      = Inr [(field_dims_key, tobytes (replicate NUM_FEATS 0))]
   \<and> get_feat_mapper exact_lib 10 header_only_files criteo_train_csv = Inr ([], [])
   \<and> open_cache [(field_dims_key, tobytes (replicate NUM_FEATS 0))]
      = Inr \<lparr>env = [(field_dims_key, tobytes (replicate NUM_FEATS 0))], len = 0,
             field_dims = replicate NUM_FEATS 0\<rparr>
   \<and> map_of ([] :: feat_mapper) (0 + 1) = None
   \<and> unat (replicate NUM_FEATS (0 :: 32 word) ! 0) = 0
   \<and> unat (replicate NUM_FEATS (0 :: 32 word) ! 0) \<noteq> length ([] :: vocab) + 1"
  using no_records_build [where fs = header_only_files and content = sample_header
      and L = exact_lib and min_threshold = 10 and path = "''train.txt''",
      OF header_only_csv header_only_no_records]
  by (simp add: NUM_FEATS_def)

text \<open>
  Claim C4, amended: for every build that derives its vocabulary and every field index
  \<open>i\<close> in \<open>0..NUM_FEATS-1\<close>: when the vocabulary map has an entry for field \<open>i+1\<close>,
  \<open>field_dims()[i] = |Vocabulary[i+1]| + 1\<close>; when it has none, \<open>field_dims()[i] = 0\<close>.
  Every field has an entry as soon as the corpus of the vocabulary has one well-formed
  data line.
\<close>

theorem C4_field_dims:
  assumes "build_cache L min_threshold prefix fs path None = Inr st"
    and "open_cache st = Inr ds"
    and "i < NUM_FEATS"
  shows "\<exists>feat_mapper defaults.
       get_feat_mapper L min_threshold fs (''data/'' @ prefix @ ''train_df_GDCN.csv'')
         = Inr (feat_mapper, defaults)
     \<and> length (field_dims ds) = NUM_FEATS
     \<and> (case map_of feat_mapper (i + 1) of
          None \<Rightarrow> field_dims ds ! i = 0
        | Some vocab \<Rightarrow> unat (field_dims ds ! i) = length vocab + 1)
     \<and> (\<forall>content. fs (''data/'' @ prefix @ ''train_df_GDCN.csv'') = Some content
           \<and> records (data_lines content) \<noteq> [] \<longrightarrow> map_of feat_mapper (i + 1) \<noteq> None)"
proof -
  let ?tp = "''data/'' @ prefix @ ''train_df_GDCN.csv''"
  from build_cache_Inr [OF assms(1)] obtain fm d fd content arrs where
    v: "(case None of None \<Rightarrow> get_feat_mapper L min_threshold fs ?tp | Some p \<Rightarrow> Inr p)
        = Inr (fm, d)"
    and fd: "set_field_dims fm (replicate NUM_FEATS 0) = Inr fd"
    and s: "st = (field_dims_key, tobytes fd) # entries_from 0 arrs"
    by blast
  have g: "get_feat_mapper L min_threshold fs ?tp = Inr (fm, d)"
    using v by simp
  have ds: "field_dims ds = fd"
    using assms(2) unfolding s open_cache_built by auto
  from get_feat_mapper_Inr [OF g] obtain c0 where c0: "fs ?tp = Some c0"
    by blast
  have dk: "distinct (map fst fm)"
    by (rule feat_mapper_keys(1) [OF g c0])
  have ks: "fst ` set fm = (if records (data_lines c0) = [] then {} else {1..NUM_FEATS})"
    by (rule feat_mapper_keys(2) [OF g c0])
  have kr: "\<forall>k\<in>fst ` set fm. 1 \<le> k \<and> k \<le> length (replicate NUM_FEATS (0 :: 32 word))"
    using ks by (auto split: if_splits)
  have ch: "length fd = length (replicate NUM_FEATS (0 :: 32 word))
   \<and> (\<forall>i<length (replicate NUM_FEATS (0 :: 32 word)). case map_of fm (i + 1) of
          None \<Rightarrow> fd ! i = replicate NUM_FEATS 0 ! i
        | Some v \<Rightarrow> unat (fd ! i) = length v + 1)"
    by (rule set_field_dims_Inr [OF fd dk kr])
  have l: "length (field_dims ds) = NUM_FEATS" using ch ds by simp
  have e: "case map_of fm (i + 1) of
          None \<Rightarrow> field_dims ds ! i = 0
        | Some vocab \<Rightarrow> unat (field_dims ds ! i) = length vocab + 1"
    using ch assms(3) ds by (auto split: option.splits)
  have p: "map_of fm (i + 1) \<noteq> None"
    if "fs ?tp = Some content" "records (data_lines content) \<noteq> []" for content
  proof -
    have "content = c0" using that(1) c0 by simp
    then have "i + 1 \<in> fst ` set fm" using ks that(2) assms(3) by simp
    then show ?thesis by (simp add: map_of_eq_None_iff)
  qed
  show ?thesis using g l e p by blast
qed

theorem C4_field_dims_witness:
  "build_cache exact_lib 1 ''criteo/'' sample_files ''train.txt'' None = Inr sample_store
   \<and> open_cache sample_store
       = Inr \<lparr>env = sample_store, len = 1, field_dims = replicate 39 2\<rparr>
   \<and> (13 :: nat) < NUM_FEATS
   \<and> get_feat_mapper exact_lib 1 sample_files (''data/'' @ ''criteo/'' @ ''train_df_GDCN.csv'')
       = Inr (sample_feat_mapper, sample_defaults)
   \<and> map_of sample_feat_mapper (13 + 1) = Some [(''a'', 0)]
   \<and> unat (replicate 39 (2 :: 32 word) ! 13) = length [(''a'', 0 :: nat)] + 1
   \<and> records (data_lines sample_csv) \<noteq> []"
proof -
  have i: "(13 :: nat) < NUM_FEATS" by (simp add: NUM_FEATS_def)
  have m: "map_of sample_feat_mapper (13 + 1) = Some [(''a'', 0)]"
    by (simp add: sample_feat_mapper_def)
  have g: "get_feat_mapper exact_lib 1 sample_files (''data/'' @ ''criteo/'' @ ''train_df_GDCN.csv'')
       = Inr (sample_feat_mapper, sample_defaults)"
    unfolding sample_temp_path by (rule sample_get_feat_mapper)
  note t = C4_field_dims [OF sample_build_cache [of "''train.txt''"] sample_open_cache i]
  have "unat (replicate 39 (2 :: 32 word) ! 13) = length [(''a'', 0 :: nat)] + 1"
    using t unfolding g using m by simp
  then show ?thesis
    using sample_build_cache sample_open_cache i g m by (simp add: sample_records)
qed

end
